theory Spec2Isabelle
  imports Complex_Main "HOL-Library.Word"
begin

unbundle bit_operations_syntax

section \<open>Machine types and constants of Graphics.h\<close>

text \<open>
  \<open>uint8_t\<close>, \<open>uint16_t\<close> and \<open>uint32_t\<close> are words of that width. \<open>int\<close> and
  \<open>unsigned int\<close> are taken to be 32 bits wide, as on the Feather boards that the circuit
  of the headers names. A value stored into a narrower unsigned variable is reduced
  modulo the width of the variable (\<open>ucast\<close>), so what ends up in a 16-bit member
  would be the same with a 16-bit \<open>unsigned int\<close>.
\<close>

type_synonym uint8_t = "8 word"
type_synonym uint16_t = "16 word"
type_synonym uint32_t = "32 word"

text \<open>\<open>#define CHAR_W 6\<close> and \<open>#define CHAR_H 8\<close>: the cell of one character at size 1.\<close>

definition CHAR_W :: "'a::len word" where
  "CHAR_W = 6"

definition CHAR_H :: "'a::len word" where
  "CHAR_H = 8"

text \<open>The alignment flags, combined with bitwise or.\<close>

definition LEFT :: uint8_t where "LEFT = 0"
definition RIGHT :: uint8_t where "RIGHT = 1"
definition TOP :: uint8_t where "TOP = 0"
definition BOTTOM :: uint8_t where "BOTTOM = 2"

section \<open>Arduino strings\<close>

text \<open>
  A \<open>String\<close> is a sequence of bytes; \<open>length()\<close> counts bytes and returns an
  \<open>unsigned int\<close>.
\<close>

definition str_length :: "string \<Rightarrow> uint32_t" where
  "str_length s = of_nat (length s)"

text \<open>
  \<open>String::substring(left, right)\<close>: the bounds are swapped when out of order, an
  empty string is returned when \<open>left\<close> is past the end, and \<open>right\<close> is cut to
  the length. \<open>substring(left)\<close> runs to the end of the string.
\<close>

definition substring :: "string \<Rightarrow> nat \<Rightarrow> nat \<Rightarrow> string" where
  "substring s left right =
     (let lo = (if left > right then right else left);
          hi = (if left > right then left else right)
      in if lo \<ge> length s then []
         else take (min hi (length s) - lo) (drop lo s))"

definition substring_from :: "string \<Rightarrow> nat \<Rightarrow> string" where
  "substring_from s left = substring s left (length s)"

text \<open>\<open>String::operator[]\<close> yields the character 0 for an index outside the string.\<close>

definition charAt :: "string \<Rightarrow> nat \<Rightarrow> char" where
  "charAt s i = (if i < length s then s ! i else CHR 0x00)"

text \<open>\<open>String(char c)\<close> copies a zero-terminated buffer, so the character 0 gives the empty string.\<close>

definition String_char :: "char \<Rightarrow> string" where
  "String_char c = (if c = CHR 0x00 then [] else [c])"

text \<open>
  \<open>String(val, DEC)\<close> for an unsigned value: the decimal digits, most significant
  first, no padding.
\<close>

definition digit_char :: "nat \<Rightarrow> char" where
  "digit_char d = ''0123456789'' ! (d mod 10)"

fun String_dec :: "nat \<Rightarrow> string" where
  "String_dec n =
     (if n < 10 then [digit_char n] else String_dec (n div 10) @ [digit_char (n mod 10)])"

declare String_dec.simps [simp del]

text \<open>
  \<open>String(val, decimalPlaces)\<close> for a \<open>float\<close> prints through \<open>dtostrf\<close> with
  the minimum field width \<open>decimalPlaces + 2\<close>: an optional minus sign, the integer
  part, a point and exactly \<open>decimalPlaces\<close> digits of the value rounded to that
  many places. The field width never pads, since the shortest output has
  \<open>decimalPlaces + 2\<close> characters. A finite \<open>float\<close> is the real number it denotes.
\<close>

fun frac_digits :: "nat \<Rightarrow> nat \<Rightarrow> string" where
  "frac_digits 0 m = []"
| "frac_digits (Suc k) m = frac_digits k (m div 10) @ [digit_char (m mod 10)]"

definition String_float :: "real \<Rightarrow> nat \<Rightarrow> string" where
  "String_float v places =
     (let n = nat \<lfloor>\<bar>v\<bar> * 10 ^ places + 1 / 2\<rfloor>
      in (if v < 0 then ''-'' else []) @ String_dec (n div 10 ^ places) @
         (if places = 0 then [] else CHR ''.'' # frac_digits places (n mod 10 ^ places)))"

text \<open>
  \<open>CORRECT_DEGREE_CHAR(str)\<close>: every occurrence of the two bytes of the degree sign
  (0xC2 0xB0 in the UTF-8 source) is replaced by the single character 248, scanning from
  the left. A string without the degree sign is left as it is.
\<close>

fun CORRECT_DEGREE_CHAR :: "string \<Rightarrow> string" where
  "CORRECT_DEGREE_CHAR (a # b # cs) =
     (if a = CHR 0xC2 \<and> b = CHR 0xB0 then CHR 0xF8 # CORRECT_DEGREE_CHAR cs
      else a # CORRECT_DEGREE_CHAR (b # cs))"
| "CORRECT_DEGREE_CHAR cs = cs"

section \<open>The display surface\<close>

text \<open>
  The display driver is an external collaborator. Its state is the text cursor, the text
  size and colour, and the sequence of drawing calls it has received. Characters have the
  fixed cell geometry of the data model: a character printed at size \<open>s\<close> advances the
  cursor by \<open>s * CHAR_W\<close>, and the bounds of a run of \<open>n\<close> characters at size \<open>s\<close> are
  \<open>n * s * CHAR_W\<close> by \<open>s * CHAR_H\<close> at the position asked for.
\<close>

datatype draw_op =
    SetCursor uint16_t uint16_t
  | SetTextSize uint8_t
  | SetTextColor uint16_t
  | PrintStr string
  | PrintChar char
  | FillRect uint16_t uint16_t uint16_t uint16_t uint16_t
  | FillRoundRect uint16_t uint16_t uint16_t uint16_t uint16_t uint16_t

record display =
  cursor_x :: uint16_t
  cursor_y :: uint16_t
  textsize :: uint8_t
  textcolor :: uint16_t
  ops :: "draw_op list"

definition setCursor :: "uint16_t \<Rightarrow> uint16_t \<Rightarrow> display \<Rightarrow> display" where
  "setCursor x y d = d\<lparr>cursor_x := x, cursor_y := y, ops := ops d @ [SetCursor x y]\<rparr>"

definition setTextSize :: "uint8_t \<Rightarrow> display \<Rightarrow> display" where
  "setTextSize s d = d\<lparr>textsize := s, ops := ops d @ [SetTextSize s]\<rparr>"

definition setTextColor :: "uint16_t \<Rightarrow> display \<Rightarrow> display" where
  "setTextColor c d = d\<lparr>textcolor := c, ops := ops d @ [SetTextColor c]\<rparr>"

definition print_str :: "string \<Rightarrow> display \<Rightarrow> display" where
  "print_str t d =
     d\<lparr>cursor_x := cursor_x d + of_nat (length t) * ucast (textsize d) * CHAR_W,
       ops := ops d @ [PrintStr t]\<rparr>"

definition print_char :: "char \<Rightarrow> display \<Rightarrow> display" where
  "print_char c d =
     d\<lparr>cursor_x := cursor_x d + ucast (textsize d) * CHAR_W, ops := ops d @ [PrintChar c]\<rparr>"

definition getTextBounds ::
  "display \<Rightarrow> string \<Rightarrow> uint16_t \<Rightarrow> uint16_t \<Rightarrow> uint16_t \<times> uint16_t \<times> uint16_t \<times> uint16_t" where
  "getTextBounds d t x y =
     (x, y, of_nat (length t) * ucast (textsize d) * CHAR_W, ucast (textsize d) * CHAR_H)"

definition fillRect ::
  "uint16_t \<Rightarrow> uint16_t \<Rightarrow> uint16_t \<Rightarrow> uint16_t \<Rightarrow> uint16_t \<Rightarrow> display \<Rightarrow> display" where
  "fillRect x y w h c d = d\<lparr>ops := ops d @ [FillRect x y w h c]\<rparr>"

section \<open>Label\<close>

record Label =
  lbl_x :: uint16_t
  lbl_y :: uint16_t
  lbl_color :: uint16_t
  lbl_size :: uint8_t
  lbl_name :: string
  lbl_subscript :: uint8_t
  lbl_alignment :: uint8_t

text \<open>
  \<open>Label::correctForAlignment(void)\<close>. The products are computed in \<open>unsigned int\<close>
  and the result is stored back into the 16-bit members.
\<close>

definition correctForAlignment :: "Label \<Rightarrow> Label" where
  "correctForAlignment l =
     (let l1 =
        (if lbl_alignment l AND RIGHT = RIGHT then
           (let l' = l\<lparr>lbl_x := lbl_x l -
                       ucast (str_length (lbl_name l) * ucast (lbl_size l) * CHAR_W)\<rparr>
            in if lbl_subscript l' \<noteq> 0 then l'\<lparr>lbl_x := lbl_x l' - CHAR_W\<rparr> else l')
         else l)
      in if lbl_alignment l1 AND BOTTOM = BOTTOM
         then l1\<lparr>lbl_y := lbl_y l1 - ucast (lbl_size l1) * CHAR_H\<rparr>
         else l1)"

text \<open>
  \<open>Label::correctForAlignment(String name, uint8_t subscript)\<close>: \<open>dif\<close> is an
  \<open>int16_t\<close> holding the low 16 bits of the \<open>unsigned int\<close> product.
\<close>

definition correctForAlignment_name :: "Label \<Rightarrow> string \<Rightarrow> uint8_t \<Rightarrow> Label" where
  "correctForAlignment_name l name subscript =
     (if lbl_alignment l AND RIGHT = RIGHT then
        (let dif0 = (ucast ((str_length name - str_length (lbl_name l)) *
                              ucast (lbl_size l) * CHAR_W) :: uint16_t);
             dif1 = (if subscript = 0 \<and> lbl_subscript l \<noteq> 0 then dif0 + CHAR_W else dif0);
             dif2 = (if subscript \<noteq> 0 \<and> lbl_subscript l = 0 then dif1 - CHAR_W else dif1)
         in l\<lparr>lbl_x := lbl_x l - dif2\<rparr>)
      else l)"

text \<open>\<open>Label::print\<close>.\<close>

definition print :: "Label \<Rightarrow> display \<Rightarrow> display" where
  "print l d0 =
     (let d1 = setCursor (lbl_x l) (lbl_y l) d0;
          d2 = setTextSize (lbl_size l) d1;
          d3 = setTextColor (lbl_color l) d2
      in if lbl_subscript l \<noteq> 0 then
           (let d4 = print_str (substring (lbl_name l) 0 (unat (lbl_subscript l) - 1)) d3;
                x = cursor_x d4;
                y = cursor_y d4;
                h = (8 * ucast (lbl_size l) :: uint16_t);
                d5 = setCursor x (y + h div 2) d4;
                d6 = setTextSize (lbl_size l - 1) d5;
                d7 = print_char (charAt (lbl_name l) (unat (lbl_subscript l) - 1)) d6;
                x' = cursor_x d7;
                d8 = setCursor x' y d7;
                d9 = setTextSize (lbl_size l) d8
            in print_str (substring_from (lbl_name l) (unat (lbl_subscript l))) d9)
         else print_str (lbl_name l) d3)"

text \<open>\<open>Label::erase\<close>.\<close>

definition erase :: "Label \<Rightarrow> uint16_t \<Rightarrow> display \<Rightarrow> display" where
  "erase l color d0 =
     (let d1 = setTextSize (lbl_size l) d0;
          (x, y, w, h) = getTextBounds d1 (lbl_name l) (lbl_x l) (lbl_y l)
      in if lbl_subscript l \<noteq> 0 then
           (let d2 = setTextSize (lbl_size l - 1) d1;
                (x1, y1, w1, h1) =
                  getTextBounds d2 (String_char (charAt (lbl_name l) (unat (lbl_subscript l) - 1)))
                    (lbl_x l) (lbl_y l)
            in fillRect x y (w - CHAR_W) (h div 2 + h1) color d2)
         else fillRect x y w h color d1)"

text \<open>The three constructors: the members are initialised, the anchor is resolved, the
  degree sign is replaced and the label is printed.\<close>

definition Label_init ::
  "uint16_t \<Rightarrow> uint16_t \<Rightarrow> string \<Rightarrow> uint8_t \<Rightarrow> uint16_t \<Rightarrow> uint8_t \<Rightarrow> uint8_t \<Rightarrow>
   display \<Rightarrow> Label \<times> display" where
  "Label_init x y name sz color subscript alignment d =
     (let l0 = \<lparr>lbl_x = x, lbl_y = y, lbl_color = color, lbl_size = sz, lbl_name = name,
                lbl_subscript = subscript, lbl_alignment = alignment\<rparr>;
          l1 = correctForAlignment l0;
          l2 = l1\<lparr>lbl_name := CORRECT_DEGREE_CHAR (lbl_name l1)\<rparr>
      in (l2, print l2 d))"

definition Label_init_uint16 ::
  "uint16_t \<Rightarrow> uint16_t \<Rightarrow> uint16_t \<Rightarrow> uint8_t \<Rightarrow> uint16_t \<Rightarrow> uint8_t \<Rightarrow> display \<Rightarrow>
   Label \<times> display" where
  "Label_init_uint16 x y val sz color alignment d =
     Label_init x y (if val > 0 then String_dec (unat val) else '' '') sz color 0 alignment d"

definition Label_init_float ::
  "uint16_t \<Rightarrow> uint16_t \<Rightarrow> real \<Rightarrow> uint8_t \<Rightarrow> uint16_t \<Rightarrow> uint8_t \<Rightarrow> display \<Rightarrow>
   Label \<times> display" where
  "Label_init_float x y val sz color alignment d =
     Label_init x y (if val > 0 then String_float val 2 else '' '') sz color 0 alignment d"

text \<open>\<open>Label::changePosition\<close> and the three \<open>Label::changeName\<close> overloads.\<close>

definition changePosition :: "Label \<Rightarrow> uint16_t \<Rightarrow> uint16_t \<Rightarrow> uint8_t \<Rightarrow> Label" where
  "changePosition l x y alignment =
     correctForAlignment (l\<lparr>lbl_x := x, lbl_y := y, lbl_alignment := alignment\<rparr>)"

definition changeName :: "Label \<Rightarrow> string \<Rightarrow> uint8_t \<Rightarrow> Label" where
  "changeName l name subscript =
     (let name' = CORRECT_DEGREE_CHAR name;
          l1 = correctForAlignment_name l name' subscript
      in l1\<lparr>lbl_name := name', lbl_subscript := subscript\<rparr>)"

definition changeName_uint16 :: "Label \<Rightarrow> uint16_t \<Rightarrow> Label" where
  "changeName_uint16 l val = changeName l (String_dec (unat val)) 0"

definition changeName_float :: "Label \<Rightarrow> real \<Rightarrow> Label" where
  "changeName_float l val = changeName l (String_float val 2) 0"

section \<open>ValueBar\<close>

text \<open>The bar owns three labels: name, value and unit, at indices 0, 1 and 2.\<close>

record ValueBar =
  vb_x :: uint16_t
  vb_y :: uint16_t
  vb_w :: uint16_t
  vb_h :: uint16_t
  vb_color :: uint16_t
  vb_labels :: "nat \<Rightarrow> Label"

definition refreshValue_uint16 :: "ValueBar \<Rightarrow> uint16_t \<Rightarrow> display \<Rightarrow> ValueBar \<times> display" where
  "refreshValue_uint16 vb val d0 =
     (let d1 = erase (vb_labels vb 1) (vb_color vb) d0;
          l = changeName_uint16 (vb_labels vb 1) val;
          vb' = vb\<lparr>vb_labels := (vb_labels vb)(1 := l)\<rparr>
      in (vb', print (vb_labels vb' 1) d1))"

definition refreshValue_float :: "ValueBar \<Rightarrow> real \<Rightarrow> display \<Rightarrow> ValueBar \<times> display" where
  "refreshValue_float vb val d0 =
     (let d1 = erase (vb_labels vb 1) (vb_color vb) d0;
          l = changeName_float (vb_labels vb 1) val;
          vb' = vb\<lparr>vb_labels := (vb_labels vb)(1 := l)\<rparr>
      in (vb', print (vb_labels vb' 1) d1))"

section \<open>The bitmap decoder\<close>

text \<open>
  \<open>int16_t\<close> values are 16-bit words read as two's complement (\<open>sint\<close>). The \<open>int\<close>
  variables of \<open>bmpReader::draw\<close> (\<open>bmpWidth\<close>, \<open>bmpHeight\<close>, \<open>w\<close>, \<open>h\<close>, \<open>row\<close>,
  \<open>col\<close>) are integers: a 32-bit header field is read as two's complement, and signed
  overflow, which C leaves undefined, is not given a meaning. Where a theorem ranges over
  all headers it carries bounds on the declared width and height under which none of
  these computations leaves the range of a 32-bit \<open>int\<close>. File offsets are \<open>uint32_t\<close>
  and wrap around.
\<close>

type_synonym int16_t = "16 word"

text \<open>\<open>#define BUFFPIXEL 50\<close>; \<open>sizeof(sdbuffer)\<close> is \<open>3 * BUFFPIXEL\<close>.\<close>

definition BUFFPIXEL :: nat where
  "BUFFPIXEL = 50"

definition sizeof_sdbuffer :: nat where
  "sizeof_sdbuffer = 3 * BUFFPIXEL"

text \<open>
  Everything the decoder does on the shared bus, in order: the calls on the storage
  surface and the calls on the display's pixel stream. \<open>SdRead p n\<close> is a buffer refill
  that started at file position \<open>p\<close> and delivered \<open>n\<close> bytes; \<open>SetAddrWindow\<close> records the
  arguments as computed, before their conversion to the driver's parameter type.
\<close>

datatype event =
    SdOpen
  | SdOpenFailed
  | SdReadByte
  | SdSeek uint32_t
  | SdRead nat nat
  | SdClose
  | StartWrite
  | EndWrite
  | SetAddrWindow int int int int
  | PushColor uint16_t

text \<open>
  The local state of \<open>draw\<close>: the open file (its bytes and the read position), the pixel
  buffer with its index, and the events so far. The buffer is a local array that C does
  not initialise; it starts here with zeros.
\<close>

record reader =
  fdata :: "uint8_t list"
  fpos :: nat
  sdbuffer :: "uint8_t list"
  buffidx :: nat
  trace :: "event list"

text \<open>The storage surface. \<open>File::read()\<close> returns -1 at the end of the file, which the
  byte-wise stores of \<open>read16\<close> and \<open>read32\<close> keep as 0xFF.\<close>

definition file_read :: "reader \<Rightarrow> uint8_t \<times> reader" where
  "file_read s =
     (if fpos s < length (fdata s)
      then (fdata s ! fpos s, s\<lparr>fpos := fpos s + 1, trace := trace s @ [SdReadByte]\<rparr>)
      else (0xFF, s\<lparr>trace := trace s @ [SdReadByte]\<rparr>))"

text \<open>\<open>File::read(buf, n)\<close> delivers at most the bytes left in the file and leaves the rest
  of the buffer as it was.\<close>

definition file_read_buf :: "reader \<Rightarrow> reader" where
  "file_read_buf s =
     (let got = take sizeof_sdbuffer (drop (fpos s) (fdata s))
      in s\<lparr>sdbuffer := got @ drop (length got) (sdbuffer s),
           fpos := fpos s + length got,
           trace := trace s @ [SdRead (fpos s) (length got)]\<rparr>)"

text \<open>\<open>File::seek(pos)\<close> fails, leaving the position, when \<open>pos\<close> is beyond the file size.\<close>

definition file_seek :: "uint32_t \<Rightarrow> reader \<Rightarrow> reader" where
  "file_seek pos s =
     s\<lparr>fpos := (if unat pos \<le> length (fdata s) then unat pos else fpos s),
       trace := trace s @ [SdSeek pos]\<rparr>"

definition file_position :: "reader \<Rightarrow> uint32_t" where
  "file_position s = of_nat (fpos s)"

text \<open>\<open>bmpReader::read16\<close> and \<open>bmpReader::read32\<close>: least significant byte first.\<close>

definition read16 :: "reader \<Rightarrow> uint16_t \<times> reader" where
  "read16 s =
     (let (b0, s1) = file_read s;
          (b1, s2) = file_read s1
      in (ucast b0 OR push_bit 8 (ucast b1), s2))"

definition read32 :: "reader \<Rightarrow> uint32_t \<times> reader" where
  "read32 s =
     (let (b0, s1) = file_read s;
          (b1, s2) = file_read s1;
          (b2, s3) = file_read s2;
          (b3, s4) = file_read s3
      in (ucast b0 OR push_bit 8 (ucast b1) OR push_bit 16 (ucast b2) OR push_bit 24 (ucast b3),
          s4))"

text \<open>The display's pixel stream.\<close>

definition startWrite :: "reader \<Rightarrow> reader" where
  "startWrite s = s\<lparr>trace := trace s @ [StartWrite]\<rparr>"

definition endWrite :: "reader \<Rightarrow> reader" where
  "endWrite s = s\<lparr>trace := trace s @ [EndWrite]\<rparr>"

definition setAddrWindow :: "int \<Rightarrow> int \<Rightarrow> int \<Rightarrow> int \<Rightarrow> reader \<Rightarrow> reader" where
  "setAddrWindow x y w h s = s\<lparr>trace := trace s @ [SetAddrWindow x y w h]\<rparr>"

definition pushColor :: "uint16_t \<Rightarrow> reader \<Rightarrow> reader" where
  "pushColor c s = s\<lparr>trace := trace s @ [PushColor c]\<rparr>"

text \<open>The driver's \<open>color565\<close>: 5 bits of red, 6 of green, 5 of blue.\<close>

definition color565 :: "uint8_t \<Rightarrow> uint8_t \<Rightarrow> uint8_t \<Rightarrow> uint16_t" where
  "color565 r g b =
     push_bit 8 (ucast r AND 0xF8) OR push_bit 3 (ucast g AND 0xFC) OR drop_bit 3 (ucast b)"

text \<open>
  The header, lines 48 to 58 of bmpDraw.cpp. \<open>bmpDepth\<close> is a \<open>uint8_t\<close>, so it keeps
  the low byte of the 16-bit field; the compression field is read only when the depth
  test has passed.
\<close>

record bmp_header =
  bmpImageoffset :: uint32_t
  bmpWidth :: int
  bmpHeight :: int

definition parse_header :: "reader \<Rightarrow> bmp_header option \<times> reader" where
  "parse_header s0 =
     (let (signature, s1) = read16 s0
      in if signature = 0x4D42 then
           (let (fsize, s2) = read32 s1;
                (creator, s3) = read32 s2;
                (off, s4) = read32 s3;
                (hsize, s5) = read32 s4;
                (bw, s6) = read32 s5;
                (bh, s7) = read32 s6;
                (planes, s8) = read16 s7
            in if planes = 1 then
                 (let (depth, s9) = read16 s8;
                      bmpDepth = (ucast depth :: uint8_t)
                  in if bmpDepth = 24 then
                       (let (compression, s10) = read32 s9
                        in if compression = 0
                           then (Some \<lparr>bmpImageoffset = off, bmpWidth = sint bw,
                                       bmpHeight = sint bh\<rparr>, s10)
                           else (None, s10))
                     else (None, s9))
               else (None, s8))
         else (None, s1))"

text \<open>The body of the pixel loop, lines 102 to 114.\<close>

definition pixel_body :: "reader \<Rightarrow> reader" where
  "pixel_body s =
     (let s1 = (if buffidx s \<ge> sizeof_sdbuffer
                then startWrite ((file_read_buf (endWrite s))\<lparr>buffidx := 0\<rparr>)
                else s);
          b = sdbuffer s1 ! buffidx s1;
          g = sdbuffer s1 ! (buffidx s1 + 1);
          r = sdbuffer s1 ! (buffidx s1 + 2)
      in pushColor (color565 r g b) (s1\<lparr>buffidx := buffidx s1 + 3\<rparr>))"

function col_loop :: "int \<Rightarrow> int \<Rightarrow> reader \<Rightarrow> reader" where
  "col_loop w col s = (if col < w then col_loop w (col + 1) (pixel_body s) else s)"
  by pat_completeness auto
termination
  by (relation "measure (\<lambda>(w, col, s). nat (w - col))") auto

declare col_loop.simps [simp del]

text \<open>Line 63: \<open>rowSize = (bmpWidth * 3 + 3) & ~3\<close>, stored in a \<open>uint32_t\<close>.\<close>

definition rowSize :: "int \<Rightarrow> uint32_t" where
  "rowSize bw = word_of_int ((bw * 3 + 3) AND NOT 3)"

text \<open>The body of the scanline loop, lines 90 to 115.\<close>

definition row_pos :: "uint32_t \<Rightarrow> uint32_t \<Rightarrow> bool \<Rightarrow> int \<Rightarrow> int \<Rightarrow> uint32_t" where
  "row_pos off rs flip bh row =
     (if flip then off + word_of_int (bh - 1 - row) * rs
      else off + word_of_int row * rs)"

definition row_body ::
  "uint32_t \<Rightarrow> uint32_t \<Rightarrow> bool \<Rightarrow> int \<Rightarrow> int \<Rightarrow> int \<Rightarrow> reader \<Rightarrow> reader" where
  "row_body off rs flip bh w row s =
     (let pos = row_pos off rs flip bh row;
          s1 = (if file_position s = pos then s
                else startWrite ((file_seek pos (endWrite s))\<lparr>buffidx := sizeof_sdbuffer\<rparr>))
      in col_loop w 0 s1)"

function row_loop ::
  "uint32_t \<Rightarrow> uint32_t \<Rightarrow> bool \<Rightarrow> int \<Rightarrow> int \<Rightarrow> int \<Rightarrow> int \<Rightarrow> reader \<Rightarrow> reader" where
  "row_loop off rs flip bh w h row s =
     (if row < h then row_loop off rs flip bh w h (row + 1)
                        (row_body off rs flip bh w row s)
      else s)"
  by pat_completeness auto
termination
  by (relation "measure (\<lambda>(off, rs, flip, bh, w, h, row, s). nat (h - row))") auto

declare row_loop.simps [simp del]

text \<open>The crop of lines 75 and 76: an extent that would pass the far edge of the
  display is replaced by the distance from the origin to that edge.\<close>

definition crop :: "int \<Rightarrow> int \<Rightarrow> int \<Rightarrow> int" where
  "crop extent origin n = (if origin + n - 1 \<ge> extent then extent - origin else n)"

text \<open>The supported-format branch, lines 60 to 117.\<close>

definition render ::
  "int16_t \<Rightarrow> int16_t \<Rightarrow> int16_t \<Rightarrow> int16_t \<Rightarrow> bmp_header \<Rightarrow> reader \<Rightarrow> reader" where
  "render dw dh x y hdr s =
     (let rs = rowSize (bmpWidth hdr);
          flip = (if bmpHeight hdr < 0 then False else True);
          bh = (if bmpHeight hdr < 0 then - bmpHeight hdr else bmpHeight hdr);
          w = crop (sint dw) (sint x) (bmpWidth hdr);
          h = crop (sint dh) (sint y) bh;
          s1 = setAddrWindow (sint x) (sint y) w h (startWrite s);
          s2 = row_loop (bmpImageoffset hdr) rs flip bh w h 0 s1
      in endWrite s2)"

text \<open>The locals of \<open>draw\<close> right after \<open>SD.open\<close> has succeeded: the buffer index
  is initialised to \<open>sizeof(sdbuffer)\<close>, so the first pixel forces a refill.\<close>

definition new_reader :: "uint8_t list \<Rightarrow> reader" where
  "new_reader bytes =
     \<lparr>fdata = bytes, fpos = 0, sdbuffer = replicate sizeof_sdbuffer 0,
      buffidx = sizeof_sdbuffer, trace = [SdOpen]\<rparr>"

text \<open>
  \<open>bmpReader::draw\<close> on a display of \<open>dw\<close> by \<open>dh\<close> pixels and a card \<open>sd\<close> that maps
  file names to file contents. The result is the sequence of events on the bus.
\<close>

definition draw ::
  "int16_t \<Rightarrow> int16_t \<Rightarrow> (string \<Rightarrow> uint8_t list option) \<Rightarrow> string \<Rightarrow> int16_t \<Rightarrow> int16_t \<Rightarrow>
   event list" where
  "draw dw dh sd filename x y =
     (if sint x \<ge> sint dw then []
      else if sint y \<ge> sint dh then []
      else case sd filename of
             None \<Rightarrow> [SdOpenFailed]
           | Some bytes \<Rightarrow>
               (let (hdr, s1) = parse_header (new_reader bytes);
                    s2 = (case hdr of None \<Rightarrow> s1 | Some h \<Rightarrow> render dw dh x y h s1)
                in trace s2 @ [SdClose]))"

text \<open>The colours pushed to the display, in order.\<close>

fun pushed :: "event list \<Rightarrow> uint16_t list" where
  "pushed [] = []"
| "pushed (PushColor c # es) = c # pushed es"
| "pushed (e # es) = pushed es"

section \<open>The bus discipline as an automaton\<close>

text \<open>
  The display and the card share one bus. The automaton reads the events of a call in
  order. \<open>Free\<close>: no display transaction has been started, the card may be used.
  \<open>InTxn\<close>: between \<open>startWrite\<close> and \<open>endWrite\<close>, where only the address window and
  pixels may follow. \<open>Ended\<close>: the last event was an \<open>endWrite\<close>. \<open>Stored\<close>: the last
  event was a seek or a buffer refill made right after an \<open>endWrite\<close>; only \<open>startWrite\<close>
  may follow. \<open>Closed\<close>: the file has been closed. Every other event leads to
  \<open>Violation\<close>, which is never left.
\<close>

datatype bus = Free | InTxn | Ended | Stored | Closed | Violation

fun bus_step :: "bus \<Rightarrow> event \<Rightarrow> bus" where
  "bus_step Free SdOpen = Free"
| "bus_step Free SdOpenFailed = Closed"
| "bus_step Free SdReadByte = Free"
| "bus_step Free SdClose = Closed"
| "bus_step Free StartWrite = InTxn"
| "bus_step InTxn (SetAddrWindow x y w h) = InTxn"
| "bus_step InTxn (PushColor c) = InTxn"
| "bus_step InTxn EndWrite = Ended"
| "bus_step Ended (SdSeek p) = Stored"
| "bus_step Ended (SdRead p n) = Stored"
| "bus_step Ended SdClose = Closed"
| "bus_step Stored StartWrite = InTxn"
| "bus_step q e = Violation"

definition bus_final :: "bus \<Rightarrow> bool" where
  "bus_final q = (case q of Free \<Rightarrow> True | Closed \<Rightarrow> True | _ \<Rightarrow> False)"

definition bus_ok :: "event list \<Rightarrow> bool" where
  "bus_ok t = bus_final (foldl bus_step Free t)"

definition bus :: "reader \<Rightarrow> bus" where
  "bus s = foldl bus_step Free (trace s)"

text \<open>The storage operations made while pixels are streamed: seeks and buffer refills.\<close>

fun storage_op :: "event \<Rightarrow> bool" where
  "storage_op (SdSeek p) = True"
| "storage_op (SdRead p n) = True"
| "storage_op e = False"


section \<open>The pixel buffer against the file\<close>

text \<open>The colour made of the blue, green and red bytes at file offsets \<open>p\<close>, \<open>p + 1\<close>
  and \<open>p + 2\<close>.\<close>

definition bgr_pixel :: "uint8_t list \<Rightarrow> nat \<Rightarrow> uint16_t" where
  "bgr_pixel F p = color565 (F ! (p + 2)) (F ! (p + 1)) (F ! p)"

text \<open>
  \<open>in_sync F s p\<close>: the next byte the pixel loop consumes is the byte of the file \<open>F\<close>
  at offset \<open>p\<close>. The unread part of the buffer holds the bytes of the file from \<open>p\<close> on
  (as far as the file goes), and the file position is where the next refill has to start.
\<close>

definition in_sync :: "uint8_t list \<Rightarrow> reader \<Rightarrow> nat \<Rightarrow> bool" where
  "in_sync F s p \<longleftrightarrow>
     fdata s = F \<and> length (sdbuffer s) = 150 \<and> buffidx s \<le> 150 \<and> 3 dvd buffidx s \<and>
     fpos s = min (length F) (p + (150 - buffidx s)) \<and>
     (\<forall>j. buffidx s \<le> j \<and> j < 150 \<and> p + (j - buffidx s) < length F \<longrightarrow>
          sdbuffer s ! j = F ! (p + (j - buffidx s)))"

text \<open>
  \<open>row_ready F s p\<close>: a scanline that starts at offset \<open>p\<close> can begin. Either the file
  position differs from \<open>p\<close>, so the loop seeks and empties the buffer, or the buffer is
  already empty.
\<close>

definition row_ready :: "uint8_t list \<Rightarrow> reader \<Rightarrow> nat \<Rightarrow> bool" where
  "row_ready F s p \<longleftrightarrow>
     fdata s = F \<and> length (sdbuffer s) = 150 \<and> fpos s \<le> length F \<and>
     (fpos s = p \<longrightarrow> buffidx s = 150)"





text \<open>What reading the header leaves as it was.\<close>

definition header_kept :: "reader \<Rightarrow> reader \<Rightarrow> bool" where
  "header_kept s s' \<longleftrightarrow>
     fdata s' = fdata s \<and> sdbuffer s' = sdbuffer s \<and> buffidx s' = buffidx s \<and>
     fpos s' \<le> length (fdata s)"

section \<open>Bitmap files used as concrete inputs\<close>

text \<open>
  Each file is the 54-byte header (signature, file size, reserved, pixel offset 54, header
  size 40, width, height, planes, bit depth, compression, and 20 bytes that the decoder
  never reads) followed by the padded rows.
\<close>

text \<open>One pixel (blue 0x10, green 0x20, red 0x30) and one byte of padding.\<close>

definition bmp_1x1 :: "uint8_t list" where
  "bmp_1x1 =
     [0x42, 0x4D, 58, 0, 0, 0, 0, 0, 0, 0, 54, 0, 0, 0,
      40, 0, 0, 0, 1, 0, 0, 0, 1, 0, 0, 0, 1, 0, 24, 0, 0, 0, 0, 0,
      4, 0, 0, 0, 0, 0, 0, 0, 0, 0, 0, 0, 0, 0, 0, 0, 0, 0, 0, 0,
      0x10, 0x20, 0x30, 0]"

text \<open>The same file with the bit depth field 0x0118 = 280.\<close>

definition bmp_1x1_depth280 :: "uint8_t list" where
  "bmp_1x1_depth280 =
     [0x42, 0x4D, 58, 0, 0, 0, 0, 0, 0, 0, 54, 0, 0, 0,
      40, 0, 0, 0, 1, 0, 0, 0, 1, 0, 0, 0, 1, 0, 0x18, 0x01, 0, 0, 0, 0,
      4, 0, 0, 0, 0, 0, 0, 0, 0, 0, 0, 0, 0, 0, 0, 0, 0, 0, 0, 0,
      0x10, 0x20, 0x30, 0]"

text \<open>One bottom-up row of 100 white pixels: 300 bytes, no padding.\<close>

definition bmp_100x1 :: "uint8_t list" where
  "bmp_100x1 =
     [0x42, 0x4D, 0x62, 0x01, 0, 0, 0, 0, 0, 0, 54, 0, 0, 0,
      40, 0, 0, 0, 100, 0, 0, 0, 1, 0, 0, 0, 1, 0, 24, 0, 0, 0, 0, 0,
      0x2C, 0x01, 0, 0, 0, 0, 0, 0, 0, 0, 0, 0, 0, 0, 0, 0, 0, 0, 0, 0]
     @ replicate 300 0xFF"

text \<open>
  Two top-down rows (height -2) of 99 white pixels: each row is 297 bytes of pixels and
  3 bytes of padding, here zero. Row 0 starts at offset 54, its padding at 351, row 1 at
  354.
\<close>

definition bmp_99x2_topdown :: "uint8_t list" where
  "bmp_99x2_topdown =
     [0x42, 0x4D, 0x8E, 0x02, 0, 0, 0, 0, 0, 0, 54, 0, 0, 0,
      40, 0, 0, 0, 99, 0, 0, 0, 0xFE, 0xFF, 0xFF, 0xFF, 1, 0, 24, 0, 0, 0, 0, 0,
      0x58, 0x02, 0, 0, 0, 0, 0, 0, 0, 0, 0, 0, 0, 0, 0, 0, 0, 0, 0, 0]
     @ replicate 297 0xFF @ [0, 0, 0] @ replicate 297 0xFF @ [0, 0, 0]"



text \<open>Two top-down rows of 100 pixels, 300 bytes each without padding: row 0 white,
  row 1 black.\<close>

definition bmp_100x2_topdown :: "uint8_t list" where
  "bmp_100x2_topdown =
     [0x42, 0x4D, 0x8E, 0x02, 0, 0, 0, 0, 0, 0, 54, 0, 0, 0,
      40, 0, 0, 0, 100, 0, 0, 0, 0xFE, 0xFF, 0xFF, 0xFF, 1, 0, 24, 0, 0, 0, 0, 0,
      0x58, 0x02, 0, 0, 0, 0, 0, 0, 0, 0, 0, 0, 0, 0, 0, 0, 0, 0, 0, 0]
     @ replicate 300 0xFF @ replicate 300 0"

definition sd_card :: "uint8_t list \<Rightarrow> string \<Rightarrow> uint8_t list option" where
  "sd_card bytes name = (if name = ''logo.bmp'' then Some bytes else None)"

text \<open>A display with nothing drawn yet.\<close>

definition blank_display :: display where
  "blank_display = \<lparr>cursor_x = 0, cursor_y = 0, textsize = 1, textcolor = 0, ops = []\<rparr>"

section \<open>Casts between the integer widths\<close>

lemma mod32_mod16: "(a::int) mod 4294967296 mod 65536 = a mod 65536"
  by (simp add: mod_mod_cancel)

lemma ucast_mult_down:
  "(ucast (a * b :: 32 word) :: 16 word) = ucast a * ucast b"
  apply transfer
  apply (simp add: take_bit_eq_mod mod32_mod16)
  apply (rule mod_mult_cong)
   apply (simp_all add: mod32_mod16)
  done

lemma ucast_diff_down:
  "(ucast (a - b :: 32 word) :: 16 word) = ucast a - ucast b"
  apply transfer
  apply (simp add: take_bit_eq_mod mod32_mod16)
  apply (rule mod_diff_cong)
   apply (simp_all add: mod32_mod16)
  done

lemma ucast_of_nat_down:
  "(ucast (of_nat n :: 32 word) :: 16 word) = of_nat n"
  by transfer (simp add: take_bit_eq_mod mod_mod_cancel)

lemma ucast_ucast_8_32_16:
  "(ucast (ucast (s :: 8 word) :: 32 word) :: 16 word) = ucast s"
  by transfer (simp add: take_bit_eq_mod mod_mod_cancel)

lemma ucast_CHAR_W: "(ucast (CHAR_W :: 32 word) :: 16 word) = CHAR_W"
  by (simp add: CHAR_W_def)

lemma ucast_pred_8_16:
  assumes "s \<noteq> 0"
  shows "(ucast (s - 1 :: 8 word) :: 16 word) = ucast s - 1"
proof -
  have "unat s \<noteq> 0"
    using assms by (simp add: unat_eq_0)
  moreover have "unat (s - 1) = unat s - 1"
    using assms by (rule unat_minus_one)
  ultimately have "(of_nat (unat (s - 1)) :: 16 word) = of_nat (unat s) - 1"
    by (cases "unat s") simp_all
  then show ?thesis
    by simp
qed

section \<open>Label: erase\<close>

text \<open>
  Claim C1. A label without subscript is erased by exactly one filled rectangle, anchored
  at the stored top-left corner, of width (number of characters) * size * \<open>CHAR_W\<close> and
  height size * \<open>CHAR_H\<close>. A label with a subscript (index at least 1) and size at least 1
  is erased by one rectangle at the same corner, of that width minus one \<open>CHAR_W\<close> and
  of height size * \<open>CHAR_H\<close> / 2 + (size - 1) * \<open>CHAR_H\<close>. The display measures text by
  the fixed cell geometry; widths and heights are 16-bit values. Beside the rectangle,
  erase only sets the text size.
\<close>

theorem erase_rectangle:
  "(lbl_subscript l = 0 \<longrightarrow>
      ops (erase l c d) = ops d @
        [SetTextSize (lbl_size l),
         FillRect (lbl_x l) (lbl_y l)
           (of_nat (length (lbl_name l)) * ucast (lbl_size l) * CHAR_W)
           (ucast (lbl_size l) * CHAR_H) c]) \<and>
   (lbl_subscript l \<noteq> 0 \<and> lbl_size l \<noteq> 0 \<longrightarrow>
      ops (erase l c d) = ops d @
        [SetTextSize (lbl_size l), SetTextSize (lbl_size l - 1),
         FillRect (lbl_x l) (lbl_y l)
           (of_nat (length (lbl_name l)) * ucast (lbl_size l) * CHAR_W - CHAR_W)
           (ucast (lbl_size l) * CHAR_H div 2 + (ucast (lbl_size l) - 1) * CHAR_H) c])"
  by (simp add: erase_def getTextBounds_def setTextSize_def fillRect_def ucast_pred_8_16)

text \<open>The two labels of the calibration panel: four blanks at size 2, and "CO2" at size 2
  with the third character as subscript.\<close>

theorem erase_rectangle_witness:
  "ops (erase \<lparr>lbl_x = 480, lbl_y = 320, lbl_color = 0xFFFF, lbl_size = 2, lbl_name = ''    '',
               lbl_subscript = 0, lbl_alignment = 0\<rparr> 0 blank_display) =
     [SetTextSize 2, FillRect 480 320 48 16 0] \<and>
   ops (erase \<lparr>lbl_x = 480, lbl_y = 320, lbl_color = 0xFFFF, lbl_size = 2, lbl_name = ''CO2'',
               lbl_subscript = 3, lbl_alignment = 0\<rparr> 0 blank_display) =
     [SetTextSize 2, SetTextSize 1, FillRect 480 320 30 16 0]"
  using
    erase_rectangle [of "\<lparr>lbl_x = 480, lbl_y = 320, lbl_color = 0xFFFF, lbl_size = 2,
        lbl_name = ''    '', lbl_subscript = 0, lbl_alignment = 0\<rparr>" 0 blank_display]
    erase_rectangle [of "\<lparr>lbl_x = 480, lbl_y = 320, lbl_color = 0xFFFF, lbl_size = 2,
        lbl_name = ''CO2'', lbl_subscript = 3, lbl_alignment = 0\<rparr>" 0 blank_display]
  by (simp add: blank_display_def CHAR_W_def CHAR_H_def)

text \<open>Read as numbers, the height is always size * 8, and the width is
  (number of characters) * size * 6 as long as that fits 16 bits.\<close>

lemma cell_height_nat: "unat (ucast (s :: uint8_t) * CHAR_H :: uint16_t) = unat s * 8"
proof -
  have "unat s < 256"
    using unsigned_less [of s, where ?'a = nat] by simp
  then have "unat s * 8 < 65536"
    by simp
  moreover have "(ucast s * CHAR_H :: uint16_t) = of_nat (unat s * 8)"
    by (simp add: CHAR_H_def)
  ultimately show ?thesis
    by (simp only: unat_of_nat) simp
qed

lemma text_width_nat:
  assumes "n * unat (s :: uint8_t) * 6 < 65536"
  shows "unat (of_nat n * ucast s * CHAR_W :: uint16_t) = n * unat s * 6"
proof -
  have "(of_nat n * ucast s * CHAR_W :: uint16_t) = of_nat (n * unat s * 6)"
    by (simp add: CHAR_W_def)
  then show ?thesis
    using assms by (simp only: unat_of_nat) simp
qed

section \<open>Label: alignment\<close>

lemma correctForAlignment_x:
  "lbl_x (correctForAlignment l) =
     (if lbl_alignment l AND RIGHT = RIGHT
      then lbl_x l - of_nat (length (lbl_name l)) * ucast (lbl_size l) * CHAR_W -
             (if lbl_subscript l \<noteq> 0 then CHAR_W else 0)
      else lbl_x l)"
  by (simp add: correctForAlignment_def Let_def str_length_def ucast_mult_down
      ucast_of_nat_down ucast_ucast_8_32_16 ucast_CHAR_W)

lemma correctForAlignment_y:
  "lbl_y (correctForAlignment l) =
     (if lbl_alignment l AND BOTTOM = BOTTOM
      then lbl_y l - ucast (lbl_size l) * CHAR_H else lbl_y l)"
  by (simp add: correctForAlignment_def Let_def)

lemma Label_init_x:
  "lbl_x (fst (Label_init x y n sz c sub a d)) =
     (if a AND RIGHT = RIGHT
      then x - of_nat (length n) * ucast sz * CHAR_W - (if sub \<noteq> 0 then CHAR_W else 0)
      else x)"
  by (simp add: Label_init_def Let_def correctForAlignment_x)

lemma Label_init_y:
  "lbl_y (fst (Label_init x y n sz c sub a d)) =
     (if a AND BOTTOM = BOTTOM then y - ucast sz * CHAR_H else y)"
  by (simp add: Label_init_def Let_def correctForAlignment_y)

text \<open>Without a subscript, right alignment at \<open>x\<close> resolves to the corner that left
  alignment gets at \<open>x\<close> minus the text width.\<close>

lemma Label_init_right_plain:
  "lbl_x (fst (Label_init x y n sz c 0 RIGHT d)) =
     lbl_x (fst (Label_init (x - of_nat (length n) * ucast sz * CHAR_W) y n sz c 0 LEFT d')) \<and>
   lbl_y (fst (Label_init x y n sz c 0 RIGHT d)) =
     lbl_y (fst (Label_init (x - of_nat (length n) * ucast sz * CHAR_W) y n sz c 0 LEFT d'))"
  by (simp add: Label_init_x Label_init_y RIGHT_def LEFT_def BOTTOM_def)

text \<open>
  Claim C3. For a right-aligned label the resolved x is the requested x minus the text
  width, and a subscript makes that width one \<open>CHAR_W\<close> smaller: "CO2" at size 2 with
  the third character subscripted is 3 * 2 * 6 - 6 = 30 wide, so right alignment at 100
  should resolve to 70. The constructor subtracts the extra \<open>CHAR_W\<close> from x instead of
  from the width and resolves to 58.
\<close>

theorem Label_init_right_subscript:
  "lbl_x (fst (Label_init 100 50 ''CO2'' 2 c 3 RIGHT d)) = 58 \<and>
   (100 - (of_nat (length ''CO2'') * 2 * CHAR_W - CHAR_W) :: uint16_t) = 70"
  by (simp add: Label_init_x RIGHT_def CHAR_W_def)

section \<open>Label: changeName\<close>

text \<open>
  Claim C4. On a right-aligned label, \<open>changeName\<close> moves the stored x to the left by
  (new length - old length) * size * \<open>CHAR_W\<close>, one \<open>CHAR_W\<close> less when a subscript is
  gained and one more when it is lost, all in 16-bit arithmetic; the lengths are those of
  the content stored before and after the call, so the shift is taken before the content
  and the subscript are replaced.
\<close>

theorem changeName_shift:
  assumes "lbl_alignment l AND RIGHT = RIGHT"
  shows "lbl_x (changeName l n s) =
           lbl_x l
           - (of_nat (length (lbl_name (changeName l n s))) - of_nat (length (lbl_name l))) *
               ucast (lbl_size l) * CHAR_W
           + (if s \<noteq> 0 \<and> lbl_subscript l = 0 then CHAR_W else 0)
           - (if s = 0 \<and> lbl_subscript l \<noteq> 0 then CHAR_W else 0)
         \<and> lbl_name (changeName l n s) = CORRECT_DEGREE_CHAR n
         \<and> lbl_subscript (changeName l n s) = s"
  using assms
  by (simp add: changeName_def correctForAlignment_name_def Let_def str_length_def
      ucast_mult_down ucast_diff_down ucast_of_nat_down ucast_ucast_8_32_16 ucast_CHAR_W)

text \<open>The value label of a bar, right and bottom aligned at size 4, going from one blank
  to "417": two characters more, 48 pixels to the left.\<close>

theorem changeName_shift_witness:
  "lbl_alignment \<lparr>lbl_x = 200, lbl_y = 100, lbl_color = 0xFFFF, lbl_size = 4, lbl_name = '' '',
                  lbl_subscript = 0, lbl_alignment = 3\<rparr> AND RIGHT = RIGHT \<and>
   lbl_x (changeName \<lparr>lbl_x = 200, lbl_y = 100, lbl_color = 0xFFFF, lbl_size = 4,
                      lbl_name = '' '', lbl_subscript = 0, lbl_alignment = 3\<rparr> ''417'' 0) = 152"
proof -
  have r: "lbl_alignment \<lparr>lbl_x = 200, lbl_y = 100, lbl_color = 0xFFFF, lbl_size = 4,
      lbl_name = '' '', lbl_subscript = 0, lbl_alignment = 3\<rparr> AND RIGHT = RIGHT"
    by (simp add: RIGHT_def)
  show ?thesis
    using r changeName_shift [OF r, of "''417''" 0]
    by (simp add: CHAR_W_def)
qed

text \<open>The two paths disagree on a subscript: a right-aligned label at 100 that gains the
  subscript through \<open>changeName\<close> ends at 70.\<close>

lemma changeName_gains_subscript:
  "lbl_x (changeName (fst (Label_init 100 50 ''CO2'' 2 c 0 RIGHT d)) ''CO2'' 3) = 70"
  by (simp add: changeName_def correctForAlignment_name_def Let_def str_length_def
      Label_init_def correctForAlignment_def RIGHT_def BOTTOM_def CHAR_W_def)

section \<open>Numeric content\<close>

lemma CORRECT_DEGREE_CHAR_id:
  "CHR 0xC2 \<notin> set s \<Longrightarrow> CORRECT_DEGREE_CHAR s = s"
  by (induction s rule: CORRECT_DEGREE_CHAR.induct) auto

lemma digit_char_in: "digit_char d \<in> set ''0123456789''"
  unfolding digit_char_def by (rule nth_mem) simp

lemma digit_char_not_C2: "digit_char d \<noteq> CHR 0xC2"
  using digit_char_in [of d] by auto

lemma String_dec_no_C2: "CHR 0xC2 \<notin> set (String_dec n)"
proof (induction n rule: String_dec.induct)
  case (1 n)
  show ?case
  proof (cases "n < 10")
    case True
    then show ?thesis
      using digit_char_not_C2 [of n] by (subst String_dec.simps) auto
  next
    case False
    then show ?thesis
      using 1 digit_char_not_C2 [of "n mod 10"] by (subst String_dec.simps) auto
  qed
qed

lemma frac_digits_no_C2: "CHR 0xC2 \<notin> set (frac_digits k m)"
  by (induction k arbitrary: m) (auto simp: digit_char_not_C2 digit_char_not_C2 [symmetric])

lemma String_float_no_C2: "CHR 0xC2 \<notin> set (String_float v p)"
  by (simp add: String_float_def Let_def String_dec_no_C2 frac_digits_no_C2)

lemma String_dec_12: "String_dec 12 = ''12''"
  by (simp add: String_dec.simps digit_char_def)

lemma String_dec_0: "String_dec 0 = ''0''"
  by (simp add: String_dec.simps digit_char_def)

lemma String_float_3_5: "String_float 3.5 2 = ''3.50''"
  by (simp add: String_float_def String_dec.simps digit_char_def numeral_2_eq_2)

lemma String_float_7_2: "String_float (7 / 2) 2 = ''3.50''"
  using String_float_3_5 by simp

lemma String_float_0: "String_float 0 2 = ''0.00''"
  by (simp add: String_float_def String_dec.simps digit_char_def numeral_2_eq_2)

text \<open>With two places the output ends in a point and two digits.\<close>

lemma String_float_two_places:
  "\<exists>front d1 d2. String_float v 2 = front @ [CHR ''.'', digit_char d1, digit_char d2]"
  by (auto simp: String_float_def Let_def numeral_2_eq_2)

lemma Label_init_name:
  "lbl_name (fst (Label_init x y n sz c sub a d)) = CORRECT_DEGREE_CHAR n"
  by (simp add: Label_init_def Let_def correctForAlignment_def)

text \<open>
  Claim C8. A label constructed from the value 0, through the \<open>uint16_t\<close> or the
  \<open>float\<close> constructor, has the content " " (one blank); from the integer 12 it has
  "12", and from the float 3.5 it has "3.50". In general a positive integer gives its
  decimal digits and a positive float its representation with two decimal places.
\<close>

theorem numeric_Label_content:
  "lbl_name (fst (Label_init_uint16 x y 0 sz c a d)) = '' '' \<and>
   lbl_name (fst (Label_init_float x y 0 sz c a d)) = '' '' \<and>
   lbl_name (fst (Label_init_uint16 x y 12 sz c a d)) = ''12'' \<and>
   lbl_name (fst (Label_init_float x y 3.5 sz c a d)) = ''3.50'' \<and>
   (0 < val \<longrightarrow> lbl_name (fst (Label_init_uint16 x y val sz c a d)) = String_dec (unat val)) \<and>
   (0 < v \<longrightarrow> lbl_name (fst (Label_init_float x y v sz c a d)) = String_float v 2)"
  by (simp add: Label_init_uint16_def Label_init_float_def Label_init_name
      String_dec_12 String_float_7_2 CORRECT_DEGREE_CHAR_id String_dec_no_C2 String_float_no_C2)

theorem numeric_Label_content_witness:
  "(0::uint16_t) < 417 \<and> (0::real) < 1.25 \<and>
   lbl_name (fst (Label_init_uint16 0 0 417 2 0xFFFF 0 blank_display)) = ''417'' \<and>
   lbl_name (fst (Label_init_float 0 0 1.25 2 0xFFFF 0 blank_display)) = ''1.25''"
proof -
  have a: "String_dec 417 = ''417''"
    by (simp add: String_dec.simps digit_char_def)
  have b: "String_float (5 / 4) 2 = ''1.25''"
    by (simp add: String_float_def String_dec.simps digit_char_def numeral_2_eq_2)
  have c: "(0::uint16_t) < 417"
    by simp
  have d: "(0::real) < 1.25"
    by simp
  show ?thesis
    using numeric_Label_content [of 0 0 2 "0xFFFF" 0 blank_display 417 "1.25"] a b c d
    by simp
qed

lemma print_plain_ops:
  "lbl_subscript l = 0 \<Longrightarrow>
   ops (print l d) = ops d @ [SetCursor (lbl_x l) (lbl_y l), SetTextSize (lbl_size l),
                              SetTextColor (lbl_color l), PrintStr (lbl_name l)]"
  by (simp add: print_def Let_def setCursor_def setTextSize_def setTextColor_def print_str_def)

lemma changeName_name: "lbl_name (changeName l n s) = CORRECT_DEGREE_CHAR n"
  by (simp add: changeName_def Let_def)

lemma changeName_subscript: "lbl_subscript (changeName l n s) = s"
  by (simp add: changeName_def Let_def)

text \<open>
  Claim C10. The numeric \<open>changeName\<close> overloads format every value, zero included:
  \<open>changeName(uint16_t)\<close> stores the decimal digits, "0" for 0, and \<open>changeName(float)\<close>
  stores two decimal places, "0.00" for 0. So \<open>ValueBar::refreshValue\<close> with 0 leaves
  "0" (or "0.00") in the value label and ends by printing it.
\<close>

theorem changeName_numeric_zero:
  "lbl_name (changeName_uint16 l val) = String_dec (unat val) \<and>
   lbl_name (changeName_float l v) = String_float v 2 \<and>
   lbl_name (changeName_uint16 l 0) = ''0'' \<and>
   lbl_name (changeName_float l 0) = ''0.00'' \<and>
   lbl_name (vb_labels (fst (refreshValue_uint16 vb 0 d)) 1) = ''0'' \<and>
   last (ops (snd (refreshValue_uint16 vb 0 d))) = PrintStr ''0'' \<and>
   lbl_name (vb_labels (fst (refreshValue_float vb 0 d)) 1) = ''0.00'' \<and>
   last (ops (snd (refreshValue_float vb 0 d))) = PrintStr ''0.00''"
  by (simp add: changeName_uint16_def changeName_float_def changeName_name changeName_subscript
      refreshValue_uint16_def refreshValue_float_def Let_def print_plain_ops
      String_dec_0 String_float_0 CORRECT_DEGREE_CHAR_id String_dec_no_C2 String_float_no_C2)

section \<open>Bitmap decoder: the events of the loops\<close>

lemma pushed_append: "pushed (xs @ ys) = pushed xs @ pushed ys"
  by (induction xs rule: pushed.induct) auto

lemma pushed_reads: "pushed (replicate n SdReadByte) = []"
  by (induction n) auto






lemma trace_seek:
  "trace (startWrite ((file_seek pos (endWrite s))\<lparr>buffidx := n\<rparr>)) =
     trace s @ [EndWrite, SdSeek pos, StartWrite]"
  by (simp add: startWrite_def endWrite_def file_seek_def)







lemma pushed_file_read: "pushed (trace (snd (file_read s))) = pushed (trace s)"
  by (simp add: file_read_def pushed_append)

lemma pushed_read16: "pushed (trace (snd (read16 s))) = pushed (trace s)"
  by (simp add: read16_def case_prod_beta Let_def pushed_file_read)

lemma pushed_read32: "pushed (trace (snd (read32 s))) = pushed (trace s)"
  by (simp add: read32_def case_prod_beta Let_def pushed_file_read)

lemma pushed_parse_header: "pushed (trace (snd (parse_header s))) = pushed (trace s)"
  by (simp add: parse_header_def case_prod_beta Let_def pushed_read16 pushed_read32)

text \<open>One step of each loop on an explicit state.\<close>

lemma pixel_body_rec:
  "pixel_body \<lparr>fdata = F, fpos = p, sdbuffer = B, buffidx = i, trace = t\<rparr> =
     (if 150 \<le> i
      then (let got = take 150 (drop p F); B' = got @ drop (length got) B
            in \<lparr>fdata = F, fpos = p + length got, sdbuffer = B', buffidx = 3,
                trace = t @ [EndWrite, SdRead p (length got), StartWrite,
                             PushColor (color565 (B' ! 2) (B' ! 1) (B' ! 0))]\<rparr>)
      else \<lparr>fdata = F, fpos = p, sdbuffer = B, buffidx = i + 3,
             trace = t @ [PushColor (color565 (B ! (i + 2)) (B ! (i + 1)) (B ! i))]\<rparr>)"
  by (simp add: pixel_body_def Let_def sizeof_sdbuffer_def BUFFPIXEL_def startWrite_def
      endWrite_def file_read_buf_def pushColor_def numeral_2_eq_2)

lemma row_body_rec:
  "row_body off rs flip bh w row \<lparr>fdata = F, fpos = p, sdbuffer = B, buffidx = i, trace = t\<rparr> =
     col_loop w 0
       (if (of_nat p :: uint32_t) = row_pos off rs flip bh row
        then \<lparr>fdata = F, fpos = p, sdbuffer = B, buffidx = i, trace = t\<rparr>
        else \<lparr>fdata = F,
               fpos = (if unat (row_pos off rs flip bh row) \<le> length F
                       then unat (row_pos off rs flip bh row) else p),
               sdbuffer = B, buffidx = 150,
               trace = t @ [EndWrite, SdSeek (row_pos off rs flip bh row), StartWrite]\<rparr>)"
  by (simp add: row_body_def Let_def sizeof_sdbuffer_def BUFFPIXEL_def startWrite_def
      endWrite_def file_seek_def file_position_def)

section \<open>Bitmap decoder: bottom-up images\<close>

lemma and_not_mask_int: "(a::int) AND NOT (mask n) = push_bit n (drop_bit n a)"
  by (rule bit_eqI) (auto simp: bit_simps)

lemma and_not_3: "(a::int) AND NOT 3 = 4 * (a div 4)"
proof -
  have "(3::int) = mask 2"
    by (simp add: mask_eq_exp_minus_1)
  then have "a AND NOT 3 = push_bit 2 (drop_bit 2 a)"
    by (simp only: and_not_mask_int)
  then show ?thesis
    by (simp add: push_bit_eq_mult drop_bit_eq_div)
qed

lemma refill_in_sync:
  assumes "in_sync F s p" and "buffidx s = 150" and "p + 3 \<le> length F"
  shows "in_sync F ((file_read_buf (endWrite s))\<lparr>buffidx := 0\<rparr>) p"
proof -
  have fp: "fpos s = p" and fd: "fdata s = F" and lb: "length (sdbuffer s) = 150"
    using assms by (auto simp: in_sync_def)
  define got where "got = take 150 (drop p F)"
  have lg: "length got = min 150 (length F - p)"
    by (simp add: got_def min.commute)
  have gj: "got ! j = F ! (p + j)" if "j < 150" "p + j < length F" for j
    using that by (simp add: got_def)
  show ?thesis
    using assms(3) lg gj
    by (auto simp: in_sync_def file_read_buf_def endWrite_def Let_def sizeof_sdbuffer_def
        BUFFPIXEL_def fp fd lb got_def [symmetric] nth_append)
qed


lemma buffered_pixel_fields:
  "buffidx s < 150 \<Longrightarrow>
   fdata (pixel_body s) = fdata s \<and> fpos (pixel_body s) = fpos s \<and>
   sdbuffer (pixel_body s) = sdbuffer s \<and> buffidx (pixel_body s) = buffidx s + 3 \<and>
   trace (pixel_body s) =
     trace s @ [PushColor (color565 (sdbuffer s ! (buffidx s + 2)) (sdbuffer s ! (buffidx s + 1))
                             (sdbuffer s ! buffidx s))]"
  by (simp add: pixel_body_def Let_def sizeof_sdbuffer_def BUFFPIXEL_def pushColor_def)

lemma buffered_pixel_in_sync:
  assumes "in_sync F s p" and "buffidx s < 150" and "p + 3 \<le> length F"
  shows "in_sync F (pixel_body s) (p + 3)"
    and "trace (pixel_body s) = trace s @ [PushColor (bgr_pixel F p)]"
proof -
  note f = buffered_pixel_fields [OF assms(2)]
  have d: "3 dvd buffidx s"
    using assms(1) by (simp add: in_sync_def)
  then have i: "buffidx s + 3 \<le> 150"
    using assms(2) by (elim dvdE) simp
  have old: "sdbuffer s ! j = F ! (p + (j - buffidx s))"
    if "buffidx s \<le> j" "j < 150" "p + (j - buffidx s) < length F" for j
    using assms(1) that by (simp add: in_sync_def)
  have b0: "sdbuffer s ! buffidx s = F ! p"
    using old [of "buffidx s"] assms(3) i by simp
  have b1: "sdbuffer s ! (buffidx s + 1) = F ! (p + 1)"
    using old [of "buffidx s + 1"] assms(3) i by simp
  have b2: "sdbuffer s ! (buffidx s + 2) = F ! (p + 2)"
    using old [of "buffidx s + 2"] assms(3) i by simp
  show "trace (pixel_body s) = trace s @ [PushColor (bgr_pixel F p)]"
    using f b0 b1 b2 by (simp add: bgr_pixel_def)
  have key: "sdbuffer s ! j = F ! (p + 3 + (j - (buffidx s + 3)))"
    if "buffidx s + 3 \<le> j \<and> j < 150 \<and> p + 3 + (j - (buffidx s + 3)) < length F" for j
  proof -
    have eq: "p + 3 + (j - (buffidx s + 3)) = p + (j - buffidx s)"
      using that by linarith
    have "sdbuffer s ! j = F ! (p + (j - buffidx s))"
    proof (rule old)
      show "buffidx s \<le> j" "j < 150" "p + (j - buffidx s) < length F"
        using that by linarith+
    qed
    then show ?thesis
      unfolding eq .
  qed
  have fp: "fpos s = min (length F) (p + 3 + (150 - (buffidx s + 3)))"
  proof -
    have "p + 3 + (150 - (buffidx s + 3)) = p + (150 - buffidx s)"
      using i by simp
    then show ?thesis
      using assms(1) by (simp add: in_sync_def)
  qed
  have "fdata s = F" "length (sdbuffer s) = 150"
    using assms(1) by (simp_all add: in_sync_def)
  moreover have "3 dvd buffidx s + 3"
    using d by simp
  ultimately show "in_sync F (pixel_body s) (p + 3)"
    unfolding in_sync_def using f i fp key by presburger
qed

lemma pixel_body_refill:
  "buffidx s = 150 \<Longrightarrow>
   pixel_body s = pixel_body (startWrite ((file_read_buf (endWrite s))\<lparr>buffidx := 0\<rparr>))"
  by (simp add: pixel_body_def Let_def sizeof_sdbuffer_def BUFFPIXEL_def startWrite_def)

lemma in_sync_startWrite: "in_sync F (startWrite s) p = in_sync F s p"
  by (simp add: in_sync_def startWrite_def)

lemma pixel_body_in_sync:
  assumes "in_sync F s p" and "p + 3 \<le> length F"
  shows "in_sync F (pixel_body s) (p + 3) \<and>
         pushed (trace (pixel_body s)) = pushed (trace s) @ [bgr_pixel F p]"
proof (cases "buffidx s < 150")
  case True
  with assms show ?thesis
    by (simp add: buffered_pixel_in_sync pushed_append)
next
  case False
  then have f: "buffidx s = 150"
    using assms(1) by (simp add: in_sync_def)
  define s' where "s' = startWrite ((file_read_buf (endWrite s))\<lparr>buffidx := 0\<rparr>)"
  have "in_sync F s' p"
    unfolding s'_def in_sync_startWrite using assms(1) f assms(2) by (rule refill_in_sync)
  moreover have "buffidx s' < 150"
    by (simp add: s'_def startWrite_def)
  moreover have "pushed (trace s') = pushed (trace s)"
    by (simp add: s'_def startWrite_def file_read_buf_def endWrite_def Let_def pushed_append)
  moreover have "pixel_body s = pixel_body s'"
    unfolding s'_def using f by (rule pixel_body_refill)
  ultimately show ?thesis
    using assms(2) by (simp add: buffered_pixel_in_sync pushed_append)
qed

lemma map_upt_Suc_shift: "map f [0..<Suc n] = f 0 # map (\<lambda>k. f (Suc k)) [0..<n]"
  by (simp add: upt_conv_Cons map_Suc_upt [symmetric] del: upt_Suc)

lemma col_loop_in_sync:
  "in_sync F s p \<Longrightarrow> p + 3 * nat (w - col) \<le> length F \<Longrightarrow>
   in_sync F (col_loop w col s) (p + 3 * nat (w - col)) \<and>
   pushed (trace (col_loop w col s)) =
     pushed (trace s) @ map (\<lambda>k. bgr_pixel F (p + 3 * k)) [0..<nat (w - col)]"
proof (induction w col s arbitrary: p rule: col_loop.induct)
  case (1 w col s)
  show ?case
  proof (cases "col < w")
    case True
    then have n: "nat (w - col) = Suc (nat (w - (col + 1)))"
      by simp
    have p3: "p + 3 \<le> length F"
      using "1.prems"(2) n by simp
    have a: "in_sync F (pixel_body s) (p + 3)"
      and b: "pushed (trace (pixel_body s)) = pushed (trace s) @ [bgr_pixel F p]"
      using pixel_body_in_sync [OF "1.prems"(1) p3] by simp_all
    have c: "p + 3 + 3 * nat (w - (col + 1)) \<le> length F"
      using "1.prems"(2) n by simp
    have ih: "in_sync F (col_loop w (col + 1) (pixel_body s)) (p + 3 + 3 * nat (w - (col + 1))) \<and>
        pushed (trace (col_loop w (col + 1) (pixel_body s))) =
          pushed (trace (pixel_body s)) @
          map (\<lambda>k. bgr_pixel F (p + 3 + 3 * k)) [0..<nat (w - (col + 1))]"
      using "1.IH" [OF True a c] .
    have e: "p + 3 + 3 * nat (w - (col + 1)) = p + 3 * nat (w - col)"
      using n by simp
    have m: "map (\<lambda>k. bgr_pixel F (p + 3 * k)) [0..<nat (w - col)] =
        bgr_pixel F p # map (\<lambda>k. bgr_pixel F (p + 3 + 3 * k)) [0..<nat (w - (col + 1))]"
      unfolding n map_upt_Suc_shift by (simp add: add.assoc)
    show ?thesis
      using True ih b unfolding e m
      by (subst (1 2) col_loop.simps) simp
  next
    case False
    with "1.prems" show ?thesis
      by (subst (1 2) col_loop.simps) simp
  qed
qed


lemma in_sync_row_ready:
  assumes "in_sync F s q" and "p < q" and "q \<le> length F"
  shows "row_ready F s p"
proof -
  have "fpos s = min (length F) (q + (150 - buffidx s))"
    using assms(1) by (simp add: in_sync_def)
  then have "q \<le> fpos s" "fpos s \<le> length F"
    using assms(3) by simp_all
  then show ?thesis
    using assms(1,2) by (auto simp: row_ready_def in_sync_def)
qed

lemma row_ready_in_sync:
  assumes "row_ready F s p" and "fpos s = p"
  shows "in_sync F s p"
  using assms by (auto simp: row_ready_def in_sync_def)

lemma seek_in_sync:
  assumes "row_ready F s q" and "unat pos \<le> length F"
  shows "in_sync F (startWrite ((file_seek pos (endWrite s))\<lparr>buffidx := sizeof_sdbuffer\<rparr>))
           (unat pos)"
  using assms
  by (auto simp: row_ready_def in_sync_def startWrite_def file_seek_def endWrite_def
      sizeof_sdbuffer_def BUFFPIXEL_def)

lemma file_position_eq:
  assumes "fpos s \<le> length (fdata s)" and "length (fdata s) < 2 ^ 32"
  shows "file_position s = pos \<longleftrightarrow> fpos s = unat pos"
proof -
  have "unat (of_nat (fpos s) :: uint32_t) = fpos s"
    using assms by (simp add: unat_of_nat)
  then show ?thesis
    unfolding file_position_def by (metis of_nat_unat ucast_id)
qed

lemma row_body_in_sync:
  assumes "row_ready F s p" and "unat (row_pos off rs flip bh row) = p"
    and "p + 3 * nat w \<le> length F" and "length F < 2 ^ 32"
  shows "in_sync F (row_body off rs flip bh w row s) (p + 3 * nat w) \<and>
         pushed (trace (row_body off rs flip bh w row s)) =
           pushed (trace s) @ map (\<lambda>k. bgr_pixel F (p + 3 * k)) [0..<nat w]"
proof -
  define pos where "pos = row_pos off rs flip bh row"
  define s1 where "s1 = (if file_position s = pos then s
      else startWrite ((file_seek pos (endWrite s))\<lparr>buffidx := sizeof_sdbuffer\<rparr>))"
  have fd: "fdata s = F" "fpos s \<le> length F"
    using assms(1) by (simp_all add: row_ready_def)
  have up: "unat pos = p"
    using assms(2) by (simp add: pos_def)
  have sync: "in_sync F s1 p"
  proof (cases "file_position s = pos")
    case True
    then have "fpos s = p"
      using file_position_eq [of s pos] fd assms(4) up by simp
    with assms(1) True show ?thesis
      by (simp add: s1_def row_ready_in_sync)
  next
    case False
    have "unat pos \<le> length F"
      using up assms(3) by simp
    with assms(1) have "in_sync F
        (startWrite ((file_seek pos (endWrite s))\<lparr>buffidx := sizeof_sdbuffer\<rparr>)) (unat pos)"
      by (rule seek_in_sync)
    with False up show ?thesis
      by (simp add: s1_def)
  qed
  have tr: "pushed (trace s1) = pushed (trace s)"
    by (simp add: s1_def trace_seek pushed_append)
  have rb: "row_body off rs flip bh w row s = col_loop w 0 s1"
    by (simp add: row_body_def Let_def s1_def pos_def)
  show ?thesis
    using col_loop_in_sync [of F s1 p w 0] sync assms(3) tr
    unfolding rb by simp
qed

lemma unat_offset:
  assumes "0 \<le> k" and "unat off + nat k * unat rs < 2 ^ 32"
  shows "unat ((off :: uint32_t) + word_of_int k * rs) = unat off + nat k * unat rs"
proof -
  have "off + word_of_int k * rs = of_nat (unat off + nat k * unat rs)"
    using assms(1) by simp
  then show ?thesis
    using assms(2) by (simp only: unat_of_nat) simp
qed


lemma row_loop_bottom_up:
  assumes w: "0 < w" and stride: "3 * nat w \<le> unat rs"
    and fits: "unat off + nat h * unat rs \<le> length F" and small: "length F < 2 ^ 32"
  shows "nat (h - row) = n \<Longrightarrow> 0 \<le> row \<Longrightarrow>
         row_ready F s (unat off + nat (h - 1 - row) * unat rs) \<Longrightarrow>
         pushed (trace (row_loop off rs True h w h row s)) =
           pushed (trace s) @
           concat (map (\<lambda>r. map (\<lambda>k. bgr_pixel F (unat off + (nat h - 1 - r) * unat rs + 3 * k))
                                  [0..<nat w])
                       [nat row..<nat h])"
proof (induction n arbitrary: row s)
  case 0
  then have "\<not> row < h" "nat h \<le> nat row"
    by simp_all
  then show ?case
    by (subst row_loop.simps) simp
next
  case (Suc n)
  then have lt: "row < h"
    by simp
  define p where "p = unat off + nat (h - 1 - row) * unat rs"
  have pn: "nat (h - 1 - row) = nat h - 1 - nat row"
    using lt Suc.prems(2) by simp
  have "nat (h - 1 - row) + 1 \<le> nat h"
    using lt Suc.prems(2) by simp
  then have "(nat (h - 1 - row) + 1) * unat rs \<le> nat h * unat rs"
    by (rule mult_le_mono1)
  then have end_row: "p + unat rs \<le> length F"
    using fits by (simp add: p_def)
  then have pw: "p + 3 * nat w \<le> length F"
    using stride by simp
  have "unat off + nat (h - 1 - row) * unat rs < 2 ^ 32"
    using end_row small by (simp add: p_def)
  then have up: "unat (row_pos off rs True h row) = p"
    using lt unat_offset [of "h - 1 - row" off rs] by (simp add: row_pos_def p_def)
  define s' where "s' = row_body off rs True h w row s"
  have rdy: "row_ready F s p"
    using Suc.prems(3) by (simp add: p_def)
  have body: "in_sync F s' (p + 3 * nat w)"
    and out: "pushed (trace s') = pushed (trace s) @ map (\<lambda>k. bgr_pixel F (p + 3 * k)) [0..<nat w]"
    using row_body_in_sync [OF rdy up pw small] by (simp_all add: s'_def)
  have "nat (h - 1 - (row + 1)) \<le> nat (h - 1 - row)"
    by simp
  then have "nat (h - 1 - (row + 1)) * unat rs \<le> nat (h - 1 - row) * unat rs"
    by (rule mult_le_mono1)
  moreover have "0 < 3 * nat w"
    using w by simp
  ultimately have "unat off + nat (h - 1 - (row + 1)) * unat rs < p + 3 * nat w"
    unfolding p_def by linarith
  with body have next_rdy: "row_ready F s' (unat off + nat (h - 1 - (row + 1)) * unat rs)"
    using pw by (rule in_sync_row_ready)
  have "nat (h - (row + 1)) = n" "0 \<le> row + 1"
    using Suc.prems by simp_all
  then have ih: "pushed (trace (row_loop off rs True h w h (row + 1) s')) =
      pushed (trace s') @
      concat (map (\<lambda>r. map (\<lambda>k. bgr_pixel F (unat off + (nat h - 1 - r) * unat rs + 3 * k))
                             [0..<nat w])
                  [nat (row + 1)..<nat h])"
    using next_rdy by (rule Suc.IH)
  have rows: "[nat row..<nat h] = nat row # [nat (row + 1)..<nat h]"
    using lt Suc.prems(2) by (simp add: upt_conv_Cons nat_add_distrib)
  have unfold: "row_loop off rs True h w h row s = row_loop off rs True h w h (row + 1) s'"
    using lt by (subst row_loop.simps) (simp add: s'_def)
  show ?case
    unfolding unfold ih out rows by (simp add: p_def pn)
qed

lemma file_read_fields:
  "fdata (snd (file_read s)) = fdata s \<and> sdbuffer (snd (file_read s)) = sdbuffer s \<and>
   buffidx (snd (file_read s)) = buffidx s \<and>
   (fpos s \<le> length (fdata s) \<longrightarrow> fpos (snd (file_read s)) \<le> length (fdata s))"
  by (simp add: file_read_def)

lemma header_kept_file_read:
  "header_kept s0 s \<Longrightarrow> header_kept s0 (snd (file_read s))"
  using file_read_fields [of s] by (simp add: header_kept_def)

lemma header_kept_read16: "header_kept s0 s \<Longrightarrow> header_kept s0 (snd (read16 s))"
  by (simp add: read16_def case_prod_beta Let_def header_kept_file_read)

lemma header_kept_read32: "header_kept s0 s \<Longrightarrow> header_kept s0 (snd (read32 s))"
  by (simp add: read32_def case_prod_beta Let_def header_kept_file_read)

lemma header_kept_parse_header:
  "header_kept s0 s \<Longrightarrow> header_kept s0 (snd (parse_header s))"
  by (simp add: parse_header_def case_prod_beta Let_def header_kept_read16 header_kept_read32)


lemma unat_rowSize:
  assumes "0 \<le> bw" and "bw < 2 ^ 29"
  shows "unat (rowSize bw) = 4 * ((3 * nat bw + 3) div 4)"
proof -
  define z where "z = 4 * ((bw * 3 + 3) div 4)"
  have z0: "0 \<le> z"
    using assms(1) by (simp add: z_def)
  have "z \<le> bw * 3 + 3"
    unfolding z_def by simp
  then have zs: "nat z < 2 ^ 32"
    using assms(2) z0 by simp
  have "rowSize bw = word_of_int z"
    unfolding rowSize_def and_not_3 z_def ..
  also have "\<dots> = of_nat (nat z)"
    using z0 by simp
  finally have "unat (rowSize bw) = nat z"
    using zs by (simp only: unat_of_nat) simp
  also have "nat z = 4 * ((3 * nat bw + 3) div 4)"
    using assms(1)
    by (simp add: z_def nat_mult_distrib nat_div_distrib nat_add_distrib mult.commute)
  finally show ?thesis .
qed

lemma rowSize_covers_row:
  assumes "0 \<le> bw" and "bw < 2 ^ 29"
  shows "3 * nat bw \<le> unat (rowSize bw)"
proof -
  define m where "m = 3 * nat bw + 3"
  have "4 * (m div 4) + m mod 4 = m"
    by simp
  moreover have "m mod 4 < 4"
    by simp
  ultimately have "3 * nat bw \<le> 4 * (m div 4)"
    unfolding m_def by linarith
  then show ?thesis
    unfolding unat_rowSize [OF assms] m_def .
qed

text \<open>
  A bottom-up image (positive height) that lies on the display, in a file that holds all
  its rows: the pixels pushed are, row by row from the top of the output, the colours of
  the byte triples at imageOffset + (H - 1 - row) * rowSize + 3 * col.
\<close>

lemma draw_bottom_up_pixels:
  assumes opened: "sd filename = Some F"
    and hdr: "parse_header (new_reader F) = (Some hdr, s1)"
    and w: "0 < bmpWidth hdr" and h: "0 < bmpHeight hdr"
    and fitx: "sint x + bmpWidth hdr \<le> sint dw" and fity: "sint y + bmpHeight hdr \<le> sint dh"
    and fits: "unat (bmpImageoffset hdr) + nat (bmpHeight hdr) * unat (rowSize (bmpWidth hdr))
                 \<le> length F"
    and small: "length F < 2 ^ 32"
  shows "pushed (draw dw dh sd filename x y) =
           concat (map (\<lambda>row. map (\<lambda>col. bgr_pixel F
                                   (unat (bmpImageoffset hdr) +
                                    (nat (bmpHeight hdr) - 1 - row) * unat (rowSize (bmpWidth hdr)) +
                                    3 * col))
                                   [0..<nat (bmpWidth hdr)])
                       [0..<nat (bmpHeight hdr)])"
proof -
  define W where "W = bmpWidth hdr"
  define H where "H = bmpHeight hdr"
  define off where "off = bmpImageoffset hdr"
  have xin: "sint x < sint dw" "sint y < sint dh"
    using w h fitx fity by simp_all
  have d: "draw dw dh sd filename x y = trace (render dw dh x y hdr s1) @ [SdClose]"
    using opened hdr xin by (simp add: draw_def)
  have s1: "s1 = snd (parse_header (new_reader F))"
    using hdr by simp
  have "header_kept (new_reader F) (new_reader F)"
    by (simp add: header_kept_def new_reader_def)
  then have "header_kept (new_reader F) s1"
    unfolding s1 by (rule header_kept_parse_header)
  then have k: "fdata s1 = F" "length (sdbuffer s1) = 150" "buffidx s1 = 150" "fpos s1 \<le> length F"
    by (simp_all add: header_kept_def new_reader_def sizeof_sdbuffer_def BUFFPIXEL_def)
  have p: "pushed (trace s1) = []"
    unfolding s1 by (simp add: pushed_parse_header new_reader_def)
  have "sint dw < 2 ^ 15" "- (2 ^ 15) \<le> sint x"
    using sint_lt [of dw] sint_ge [of x] by simp_all
  then have Wsmall: "W < 2 ^ 29"
    using fitx by (simp add: W_def)
  have stride: "3 * nat W \<le> unat (rowSize W)"
    using w Wsmall by (intro rowSize_covers_row) (simp_all add: W_def)
  have cw: "crop (sint dw) (sint x) W = W" and ch: "crop (sint dh) (sint y) H = H"
    using fitx fity by (simp_all add: crop_def W_def H_def)
  define s2 where "s2 = setAddrWindow (sint x) (sint y) W H (startWrite s1)"
  have rdy: "row_ready F s2 (unat off + nat (H - 1 - 0) * unat (rowSize W))"
    using k by (simp add: row_ready_def s2_def setAddrWindow_def startWrite_def)
  have p2: "pushed (trace s2) = []"
    using p by (simp add: s2_def setAddrWindow_def startWrite_def pushed_append)
  have rows: "pushed (trace (row_loop off (rowSize W) True H W H 0 s2)) =
      pushed (trace s2) @
      concat (map (\<lambda>r. map (\<lambda>k. bgr_pixel F (unat off + (nat H - 1 - r) * unat (rowSize W) + 3 * k))
                             [0..<nat W])
                  [nat 0..<nat H])"
  proof (rule row_loop_bottom_up [where n = "nat (H - 0)"])
    show "0 < W" using w by (simp add: W_def)
    show "3 * nat W \<le> unat (rowSize W)" by (rule stride)
    show "unat off + nat H * unat (rowSize W) \<le> length F"
      using fits by (simp add: off_def H_def W_def)
    show "length F < 2 ^ 32" by (rule small)
    show "nat (H - 0) = nat (H - 0)" by simp
    show "(0::int) \<le> 0" by simp
    show "row_ready F s2 (unat off + nat (H - 1 - 0) * unat (rowSize W))" by (rule rdy)
  qed
  have r: "render dw dh x y hdr s1 = endWrite (row_loop off (rowSize W) True H W H 0 s2)"
    using h cw ch by (simp add: render_def Let_def W_def H_def off_def s2_def)
  show ?thesis
    unfolding d r using rows p2
    by (simp add: pushed_append endWrite_def W_def H_def off_def)
qed

section \<open>Bitmap decoder: row order and pixel offsets\<close>

lemma parse_header_99x2:
  "parse_header (new_reader bmp_99x2_topdown) =
     (Some \<lparr>bmpImageoffset = 54, bmpWidth = 99, bmpHeight = - 2\<rparr>,
      \<lparr>fdata = bmp_99x2_topdown, fpos = 34, sdbuffer = replicate 150 0, buffidx = 150,
       trace = SdOpen # replicate 34 SdReadByte\<rparr>)"
  by code_simp

lemma length_bmp_99x2: "length bmp_99x2_topdown = 654"
  by (simp add: bmp_99x2_topdown_def)

lemma refill_99x2_at_54: "take 150 (drop 54 bmp_99x2_topdown) = replicate 150 0xFF"
  by (simp add: bmp_99x2_topdown_def)

lemma refill_99x2_at_204: "take 150 (drop 204 bmp_99x2_topdown) = replicate 147 0xFF @ [0, 0, 0]"
  by (simp add: bmp_99x2_topdown_def)

lemma refill_99x2_at_354: "take 150 (drop 354 bmp_99x2_topdown) = replicate 150 0xFF"
  by (simp add: bmp_99x2_topdown_def)

lemma refill_99x2_at_504: "take 150 (drop 504 bmp_99x2_topdown) = replicate 147 0xFF @ [0, 0, 0]"
  by (simp add: bmp_99x2_topdown_def)

lemma color565_white: "color565 0xFF 0xFF 0xFF = 0xFFFF"
  by (simp add: color565_def)

lemma color565_black: "color565 0 0 0 = 0"
  by (simp add: color565_def)

text \<open>
  Claim C2. For a top-down image (negative height) the pixel at output position
  (row, col) is to come from file offset imageOffset + row * rowStride + 3 * col. In the
  image of two rows of 99 white pixels the row stride is 300, so the first pixel of row 1
  is at offset 354 and is white. The decoder pushes 198 colours, but the one for (1, 0),
  the 100th, is black: it is made of the three padding bytes of row 0 at offsets 351 to
  353, which were left in the buffer, because the file position after row 0 is already
  354 and the seek that resets the buffer is skipped. The rest of row 1 is shifted by one
  pixel.
\<close>

theorem draw_topdown_row_shifted:
  "pushed (draw 480 320 (sd_card bmp_99x2_topdown) ''logo.bmp'' 0 0) =
     replicate 99 0xFFFF @ [0] @ replicate 98 0xFFFF \<and>
   color565 (bmp_99x2_topdown ! 356) (bmp_99x2_topdown ! 355) (bmp_99x2_topdown ! 354) = 0xFFFF \<and>
   color565 (bmp_99x2_topdown ! 353) (bmp_99x2_topdown ! 352) (bmp_99x2_topdown ! 351) = 0"
proof -
  have "pushed (draw 480 320 (sd_card bmp_99x2_topdown) ''logo.bmp'' 0 0) =
      replicate 99 0xFFFF @ [0] @ replicate 98 0xFFFF"
    apply (simp add: draw_def sd_card_def parse_header_99x2 render_def rowSize_def crop_def Let_def
        setAddrWindow_def startWrite_def endWrite_def pushed_append pushed_reads)
    apply (simp add: row_loop.simps row_body_rec row_pos_def length_bmp_99x2
        col_loop.simps pixel_body_rec refill_99x2_at_54 refill_99x2_at_204 refill_99x2_at_354
        refill_99x2_at_504 color565_white color565_black nth_append Let_def pushed_append
        pushed_reads)
    apply code_simp
    done
  moreover have "bmp_99x2_topdown ! 354 = 0xFF \<and> bmp_99x2_topdown ! 355 = 0xFF \<and>
      bmp_99x2_topdown ! 356 = 0xFF \<and> bmp_99x2_topdown ! 351 = 0 \<and>
      bmp_99x2_topdown ! 352 = 0 \<and> bmp_99x2_topdown ! 353 = 0"
    by (simp add: bmp_99x2_topdown_def nth_append)
  ultimately show ?thesis
    by (simp add: color565_white color565_black)
qed

section \<open>Bitmap decoder: rejected headers\<close>

lemma draw_closes_file:
  "sint x < sint dw \<Longrightarrow> sint y < sint dh \<Longrightarrow> sd filename = Some bytes \<Longrightarrow>
   last (draw dw dh sd filename x y) = SdClose"
  by (simp add: draw_def case_prod_beta Let_def)

lemma draw_rejected:
  assumes "sint x < sint dw" and "sint y < sint dh" and "sd filename = Some bytes"
    and "fst (parse_header (new_reader bytes)) = None"
  shows "pushed (draw dw dh sd filename x y) = []"
proof -
  have "pushed (trace (snd (parse_header (new_reader bytes)))) = []"
    by (simp add: pushed_parse_header new_reader_def)
  then show ?thesis
    using assms by (simp add: draw_def case_prod_beta Let_def pushed_append)
qed

text \<open>
  Claim C5. A header whose bit depth is not 24 must give no pixel push. The file
  \<open>bmp_1x1_depth280\<close> declares a bit depth of 280 (0x0118), one plane and no
  compression. The decoder keeps only the low byte of the field, 0x18 = 24, accepts the
  file and pushes its pixel.
\<close>

theorem draw_depth_low_byte:
  "pushed (draw 480 320 (sd_card bmp_1x1_depth280) ''logo.bmp'' 0 0) = [0x3102]"
  by code_simp

section \<open>Bitmap decoder: clipping\<close>


lemma draw_clipped_trace:
  "draw 480 320 (sd_card bmp_100x1) ''logo.bmp'' 479 0 =
     SdOpen # replicate 34 SdReadByte @
     [StartWrite, SetAddrWindow 479 0 1 1, EndWrite, SdSeek 54, StartWrite,
      EndWrite, SdRead 54 150, StartWrite, PushColor 0xFFFF, EndWrite, SdClose]"
  by code_simp



























text \<open>
  The top-down case that the amended claim leaves out: with a row size of 300 bytes the
  file position after a row clipped to 51 pixels is already the offset of the next row,
  the seek is skipped, and row 1 starts with the 49 pixels of row 0 that were clipped
  away (white), followed by only two of its own (black).
\<close>

lemma parse_header_100x2:
  "parse_header (new_reader bmp_100x2_topdown) =
     (Some \<lparr>bmpImageoffset = 54, bmpWidth = 100, bmpHeight = - 2\<rparr>,
      \<lparr>fdata = bmp_100x2_topdown, fpos = 34, sdbuffer = replicate 150 0, buffidx = 150,
       trace = SdOpen # replicate 34 SdReadByte\<rparr>)"
  by code_simp

lemma length_bmp_100x2: "length bmp_100x2_topdown = 654"
  by (simp add: bmp_100x2_topdown_def)

lemma refill_100x2_at_54: "take 150 (drop 54 bmp_100x2_topdown) = replicate 150 0xFF"
  by (simp add: bmp_100x2_topdown_def)

lemma refill_100x2_at_204: "take 150 (drop 204 bmp_100x2_topdown) = replicate 150 0xFF"
  by (simp add: bmp_100x2_topdown_def)

lemma refill_100x2_at_354: "take 150 (drop 354 bmp_100x2_topdown) = replicate 150 0"
  by (simp add: bmp_100x2_topdown_def)

lemma draw_clipped_topdown_stale:
  "pushed (draw 480 320 (sd_card bmp_100x2_topdown) ''logo.bmp'' 429 0) =
     replicate 100 0xFFFF @ replicate 2 0"
  apply (simp add: draw_def sd_card_def parse_header_100x2 render_def rowSize_def crop_def Let_def
      setAddrWindow_def startWrite_def endWrite_def pushed_append pushed_reads)
  apply (simp add: row_loop.simps row_body_rec row_pos_def length_bmp_100x2
      col_loop.simps pixel_body_rec refill_100x2_at_54 refill_100x2_at_204 refill_100x2_at_354
      color565_white color565_black nth_append Let_def pushed_append pushed_reads)
  apply code_simp
  done

section \<open>Bitmap decoder: the origin guard\<close>

text \<open>
  The claim that every origin outside the display is refused fails for an origin to the
  left: at x = -1000 the one-pixel image cannot meet the display, yet the file is opened
  and its pixel is pushed.
\<close>

theorem draw_left_origin_counterexample:
  "draw 480 320 (sd_card bmp_1x1) ''logo.bmp'' (- 1000) 0 =
     SdOpen # replicate 34 SdReadByte @
     [StartWrite, SetAddrWindow (- 1000) 0 1 1, EndWrite, SdSeek 54, StartWrite,
      EndWrite, SdRead 54 4, StartWrite, PushColor 0x3102, EndWrite, SdClose]"
  by code_simp

text \<open>
  Claim C9, amended. When the origin is at or past the right edge (x at least the
  display width) or at or past the bottom edge (y at least the display height), \<open>draw\<close>
  does nothing: no file is opened, nothing is read, no pixel is pushed. Origins to the
  left of or above the display are not refused.
\<close>

theorem draw_origin_guard:
  "sint dw \<le> sint x \<or> sint dh \<le> sint y \<Longrightarrow> draw dw dh sd filename x y = []"
  by (auto simp: draw_def)

theorem draw_origin_guard_witness:
  "draw 480 320 (sd_card bmp_1x1) ''logo.bmp'' 480 0 = [] \<and>
   draw 480 320 (sd_card bmp_1x1) ''logo.bmp'' 0 320 = []"
  using draw_origin_guard [of 480 480 320 0 "sd_card bmp_1x1" "''logo.bmp''"]
    draw_origin_guard [of 480 0 320 320 "sd_card bmp_1x1" "''logo.bmp''"]
  by simp

section \<open>Bitmap decoder: the shared bus\<close>

lemma bus_file_read: "bus s = Free \<Longrightarrow> bus (snd (file_read s)) = Free"
  by (simp add: bus_def file_read_def)

lemma bus_read16: "bus s = Free \<Longrightarrow> bus (snd (read16 s)) = Free"
  by (simp add: read16_def case_prod_beta Let_def bus_file_read)

lemma bus_read32: "bus s = Free \<Longrightarrow> bus (snd (read32 s)) = Free"
  by (simp add: read32_def case_prod_beta Let_def bus_file_read)

lemma bus_parse_header: "bus s = Free \<Longrightarrow> bus (snd (parse_header s)) = Free"
  by (simp add: parse_header_def case_prod_beta Let_def bus_read16 bus_read32)

lemma bus_pixel_body: "bus s = InTxn \<Longrightarrow> bus (pixel_body s) = InTxn"
  by (simp add: bus_def pixel_body_def Let_def startWrite_def endWrite_def file_read_buf_def
      pushColor_def)

lemma bus_col_loop: "bus s = InTxn \<Longrightarrow> bus (col_loop w col s) = InTxn"
proof (induction w col s rule: col_loop.induct)
  case (1 w col s)
  then show ?case
    by (subst col_loop.simps) (simp add: bus_pixel_body)
qed

lemma bus_seek:
  "bus s = InTxn \<Longrightarrow> bus (startWrite ((file_seek pos (endWrite s))\<lparr>buffidx := n\<rparr>)) = InTxn"
  by (simp add: bus_def startWrite_def endWrite_def file_seek_def)

lemma bus_row_body: "bus s = InTxn \<Longrightarrow> bus (row_body off rs flip bh w row s) = InTxn"
  by (simp add: row_body_def Let_def bus_col_loop bus_seek)

lemma bus_row_loop: "bus s = InTxn \<Longrightarrow> bus (row_loop off rs flip bh w h row s) = InTxn"
proof (induction off rs flip bh w h row s rule: row_loop.induct)
  case (1 off rs flip bh w h row s)
  then show ?case
    by (subst row_loop.simps) (simp add: bus_row_body)
qed

lemma bus_render:
  assumes "bus s = Free"
  shows "bus (render dw dh x y hdr s) = Ended"
proof -
  have "bus (setAddrWindow ax ay aw ah (startWrite s)) = InTxn" for ax ay aw ah
    using assms by (simp add: bus_def setAddrWindow_def startWrite_def)
  then have "bus (row_loop off rs flip bh w h 0 (setAddrWindow ax ay aw ah (startWrite s))) = InTxn"
    for off rs flip bh w h ax ay aw ah
    by (rule bus_row_loop)
  then show ?thesis
    by (simp add: render_def Let_def bus_def endWrite_def)
qed

text \<open>The automaton refuses a seek inside a transaction, a pixel pushed after a seek
  without a new \<open>startWrite\<close>, and a return with the transaction still open.\<close>

lemma bus_ok_refuses_seek_in_transaction:
  "\<not> bus_ok [SdOpen, StartWrite, SdSeek 54, EndWrite, SdClose]"
  by (simp add: bus_ok_def bus_final_def)

lemma bus_ok_refuses_push_after_seek:
  "\<not> bus_ok [SdOpen, StartWrite, EndWrite, SdSeek 54, PushColor 0, StartWrite, EndWrite, SdClose]"
  by (simp add: bus_ok_def bus_final_def)

lemma bus_ok_refuses_open_transaction:
  "\<not> bus_ok [SdOpen, StartWrite, PushColor 0, SdClose]"
  by (simp add: bus_ok_def bus_final_def)

lemma foldl_Violation: "foldl bus_step Violation t = Violation"
  by (induction t) auto

lemma bus_step_Stored: "bus_step q e = Stored \<Longrightarrow> q = Ended \<and> storage_op e"
  by (cases "(q, e)" rule: bus_step.cases) auto

lemma bus_step_Ended: "bus_step q e = Ended \<Longrightarrow> q = InTxn \<and> e = EndWrite"
  by (cases "(q, e)" rule: bus_step.cases) auto

lemma bus_step_storage:
  "storage_op e \<Longrightarrow> bus_step q e = (if q = Ended then Stored else Violation)"
  by (cases "(q, e)" rule: bus_step.cases) auto

lemma bus_step_from_Stored:
  "bus_step Stored e = (if e = StartWrite then InTxn else Violation)"
  by (cases e) auto

lemma foldl_Ended_last:
  assumes "foldl bus_step Free xs = Ended"
  shows "xs \<noteq> [] \<and> last xs = EndWrite"
proof (cases xs rule: rev_cases)
  case Nil
  then show ?thesis
    using assms by simp
next
  case (snoc ys y)
  with assms have "bus_step (foldl bus_step Free ys) y = Ended"
    by simp
  then have "y = EndWrite"
    by (simp add: bus_step_Ended)
  with snoc show ?thesis by simp
qed

lemma bus_ok_storage_bracketed:
  assumes ok: "bus_ok t" and i: "i < length t" and st: "storage_op (t ! i)"
  shows "0 < i \<and> t ! (i - 1) = EndWrite \<and> Suc i < length t \<and> t ! Suc i = StartWrite"
proof -
  define xs where "xs = take i t"
  define ys where "ys = drop (Suc i) t"
  have t: "t = xs @ t ! i # ys"
    using i by (simp add: xs_def ys_def id_take_nth_drop)
  have lx: "length xs = i"
    using i by (simp add: xs_def)
  define q where "q = foldl bus_step Free xs"
  have run: "foldl bus_step Free t = foldl bus_step (bus_step q (t ! i)) ys"
    by (subst t) (simp add: q_def)
  have nv: "foldl bus_step Free t \<noteq> Violation" "foldl bus_step Free t \<noteq> Stored"
    using ok by (auto simp: bus_ok_def bus_final_def)
  have qE: "q = Ended"
  proof (rule ccontr)
    assume "q \<noteq> Ended"
    then have "bus_step q (t ! i) = Violation"
      using st by (simp add: bus_step_storage)
    then show False
      using run nv by (simp add: foldl_Violation)
  qed
  then have xs: "xs \<noteq> [] \<and> last xs = EndWrite"
    unfolding q_def by (rule foldl_Ended_last)
  then have i0: "0 < i"
    using lx by auto
  have prev: "t ! (i - 1) = EndWrite"
  proof -
    have "xs \<noteq> []"
      using xs by blast
    then have "last xs = xs ! (length xs - 1)"
      by (rule last_conv_nth)
    then have "last xs = xs ! (i - 1)"
      using lx by simp
    also have "\<dots> = t ! (i - 1)"
      using i0 by (simp add: xs_def)
    finally show ?thesis
      using xs by simp
  qed
  have run2: "foldl bus_step Free t = foldl bus_step Stored ys"
    using run qE st by (simp add: bus_step_storage)
  have ys: "ys \<noteq> [] \<and> hd ys = StartWrite"
  proof (cases ys)
    case Nil
    then show ?thesis
      using run2 nv by simp
  next
    case (Cons y ys')
    show ?thesis
    proof (cases "y = StartWrite")
      case True
      then show ?thesis using Cons by simp
    next
      case False
      then have "foldl bus_step Stored ys = Violation"
        using Cons by (simp add: bus_step_from_Stored foldl_Violation)
      then show ?thesis
        using run2 nv by simp
    qed
  qed
  then have "Suc i < length t"
    by (auto simp: ys_def)
  moreover from this have "t ! Suc i = hd ys"
    by (simp add: ys_def hd_drop_conv_nth)
  ultimately show ?thesis
    using i0 prev ys by simp
qed

lemma draw_bus_ok: "bus_ok (draw dw dh sd filename x y)"
proof (cases "sd filename")
  case None
  then show ?thesis
    by (simp add: draw_def bus_ok_def bus_final_def)
next
  case (Some bytes)
  have f0: "bus (new_reader bytes) = Free"
    by (simp add: new_reader_def bus_def)
  have f1: "bus (snd (parse_header (new_reader bytes))) = Free"
    using f0 by (rule bus_parse_header)
  have f2: "bus (render dw dh x y h (snd (parse_header (new_reader bytes)))) = Ended" for h
    using f1 by (rule bus_render)
  show ?thesis
    using Some f1 f2
    by (simp add: draw_def bus_ok_def bus_final_def Let_def case_prod_beta bus_def
        split: option.splits)
qed

lemma draw_1x1_trace:
  "draw 480 320 (sd_card bmp_1x1) ''logo.bmp'' 0 0 =
     SdOpen # replicate 34 SdReadByte @
     [StartWrite, SetAddrWindow 0 0 1 1, EndWrite, SdSeek 54, StartWrite,
      EndWrite, SdRead 54 4, StartWrite, PushColor 0x3102, EndWrite, SdClose]"
  by code_simp

text \<open>
  Claim C7. In every execution of \<open>draw\<close> the events are accepted by the bus automaton:
  no storage operation happens between a \<open>startWrite\<close> and its \<open>endWrite\<close>, and the
  transaction is ended before the file is closed and the function returns. Every seek
  and every buffer refill is immediately preceded by \<open>endWrite\<close> and immediately followed
  by \<open>startWrite\<close>.
\<close>

theorem draw_bus_discipline:
  "bus_ok (draw dw dh sd filename x y) \<and>
   (\<forall>i. i < length (draw dw dh sd filename x y) \<and> storage_op (draw dw dh sd filename x y ! i) \<longrightarrow>
        0 < i \<and> draw dw dh sd filename x y ! (i - 1) = EndWrite \<and>
        Suc i < length (draw dw dh sd filename x y) \<and>
        draw dw dh sd filename x y ! Suc i = StartWrite)"
  using bus_ok_storage_bracketed [OF draw_bus_ok] draw_bus_ok by blast

text \<open>In the events of the one-pixel image the seek is event 38 and the refill event 41.\<close>

theorem draw_bus_discipline_witness:
  "storage_op (draw 480 320 (sd_card bmp_1x1) ''logo.bmp'' 0 0 ! 38) \<and>
   draw 480 320 (sd_card bmp_1x1) ''logo.bmp'' 0 0 ! 37 = EndWrite \<and>
   draw 480 320 (sd_card bmp_1x1) ''logo.bmp'' 0 0 ! 39 = StartWrite \<and>
   storage_op (draw 480 320 (sd_card bmp_1x1) ''logo.bmp'' 0 0 ! 41) \<and>
   draw 480 320 (sd_card bmp_1x1) ''logo.bmp'' 0 0 ! 40 = EndWrite \<and>
   draw 480 320 (sd_card bmp_1x1) ''logo.bmp'' 0 0 ! 42 = StartWrite"
proof -
  have a: "38 < length (draw 480 320 (sd_card bmp_1x1) ''logo.bmp'' 0 0) \<and>
      storage_op (draw 480 320 (sd_card bmp_1x1) ''logo.bmp'' 0 0 ! 38)"
    by (simp add: draw_1x1_trace nth_append)
  have b: "41 < length (draw 480 320 (sd_card bmp_1x1) ''logo.bmp'' 0 0) \<and>
      storage_op (draw 480 320 (sd_card bmp_1x1) ''logo.bmp'' 0 0 ! 41)"
    by (simp add: draw_1x1_trace nth_append)
  have c: "Suc 38 = 39" "Suc 41 = 42" "(38::nat) - 1 = 37" "(41::nat) - 1 = 40"
    by simp_all
  show ?thesis
    using draw_bus_discipline [of 480 320 "sd_card bmp_1x1" "''logo.bmp''" 0 0] a b
    unfolding c [symmetric] by blast
qed

end
